theory Spec2Isabelle
  imports Complex_Main "HOL-Library.Word" "HOL-Library.AList"
begin

unbundle bit_operations_syntax

section \<open>JavaScript values\<close>

text \<open>
  The helpers of \<^verbatim>\<open>nodes/shared/rerank.helpers.ts\<close> take documents and backend responses of
  type \<^verbatim>\<open>any\<close>. A primitive value is a \<open>prim\<close>; an object or an array is a reference
  into a heap, so that a document can contain itself. Numbers are the reals together with
  \<open>PNaN\<close>: the code only tests numbers for truthiness and compares them, it never rounds.
  The infinities are left out.
\<close>

datatype prim = PUndefined | PNull | PBool bool | PNum real | PNaN | PStr string

datatype jsval = Prim prim | Ref nat

datatype jsobj = Obj "(string \<times> jsval) list" | Arr "jsval list"

type_synonym heap = "jsobj list"

text \<open>Exceptions, by class and message; \<open>JsError\<close> is an exception of any other class.\<close>

datatype error = NodeOperationError string | NodeApiError string | TypeError string | JsError string

text \<open>An address outside the heap reads as an object without properties.\<close>

definition deref :: "heap \<Rightarrow> nat \<Rightarrow> jsobj" where
  "deref h a = (if a < length h then h ! a else Obj [])"

fun truthy :: "prim \<Rightarrow> bool" where
  "truthy PUndefined = False"
| "truthy PNull = False"
| "truthy (PBool b) = b"
| "truthy (PNum r) = (r \<noteq> 0)"
| "truthy PNaN = False"
| "truthy (PStr s) = (s \<noteq> [])"

fun truthy_val :: "jsval \<Rightarrow> bool" where
  "truthy_val (Prim p) = truthy p"
| "truthy_val (Ref a) = True"

text \<open>\<^verbatim>\<open>a || b\<close> on primitives and on values.\<close>

definition js_or :: "prim \<Rightarrow> prim \<Rightarrow> prim" where
  "js_or a b = (if truthy a then a else b)"

subsection \<open>Numbers and strings\<close>

definition digit_char :: "nat \<Rightarrow> char" where
  "digit_char d = char_of (48 + d)"

function show_nat :: "nat \<Rightarrow> string" where
  "show_nat n = (if n < 10 then [digit_char n] else show_nat (n div 10) @ [digit_char (n mod 10)])"
  by pat_completeness auto
termination
  by (relation "measure (\<lambda>n. n)") auto

declare show_nat.simps [simp del]

text \<open>
  Decimal digits after the point, at most \<open>k\<close> of them. A JavaScript number prints as its
  shortest decimal that reads back; the exponent forms of very large and very small
  magnitudes are not modelled.
\<close>

fun frac_digits :: "nat \<Rightarrow> real \<Rightarrow> string" where
  "frac_digits 0 x = []"
| "frac_digits (Suc k) x =
     (if x = 0 then []
      else digit_char (nat \<lfloor>x * 10\<rfloor>) # frac_digits k (x * 10 - of_int \<lfloor>x * 10\<rfloor>))"

definition number_to_string :: "real \<Rightarrow> string" where
  "number_to_string r =
     (let m = \<bar>r\<bar>; ip = nat \<lfloor>m\<rfloor>; fp = frac_digits 20 (m - of_int \<lfloor>m\<rfloor>)
      in (if r < 0 then ''-'' else '''') @ show_nat ip @ (if fp = [] then [] else CHR ''.'' # fp))"

text \<open>
  \<^verbatim>\<open>ToNumber\<close> on a string, for plain decimal literals: an optional sign, digits, an
  optional point and digits. The empty string is 0. Every other string reads as \<open>NaN\<close>
  here (\<open>None\<close>); JavaScript also accepts surrounding blanks, exponents, hexadecimal
  literals and \<^verbatim>\<open>Infinity\<close>.
\<close>

definition is_digit :: "char \<Rightarrow> bool" where
  "is_digit c = (48 \<le> (of_char c :: nat) \<and> (of_char c :: nat) \<le> 57)"

definition digits_value :: "string \<Rightarrow> nat" where
  "digits_value s = fold (\<lambda>c n. 10 * n + ((of_char c :: nat) - 48)) s 0"

definition unsigned_decimal :: "string \<Rightarrow> real option" where
  "unsigned_decimal s =
     (let ip = takeWhile (\<lambda>c. c \<noteq> CHR ''.'') s; rest = dropWhile (\<lambda>c. c \<noteq> CHR ''.'') s;
          fp = (case rest of [] \<Rightarrow> [] | _ # t \<Rightarrow> t)
      in if list_all is_digit ip \<and> list_all is_digit fp \<and> (ip \<noteq> [] \<or> fp \<noteq> [])
         then Some (real (digits_value ip) + real (digits_value fp) / 10 ^ length fp)
         else None)"

definition string_to_number :: "string \<Rightarrow> real option" where
  "string_to_number s =
     (case s of
        [] \<Rightarrow> Some 0
      | c # t \<Rightarrow>
          if c = CHR ''-'' then map_option uminus (unsigned_decimal t)
          else if c = CHR ''+'' then unsigned_decimal t
          else unsigned_decimal s)"

text \<open>\<^verbatim>\<open>ToNumber\<close>: \<open>None\<close> is \<open>NaN\<close>.\<close>

fun to_number :: "prim \<Rightarrow> real option" where
  "to_number PUndefined = None"
| "to_number PNull = Some 0"
| "to_number (PBool b) = Some (if b then 1 else 0)"
| "to_number (PNum r) = Some r"
| "to_number PNaN = None"
| "to_number (PStr s) = string_to_number s"

text \<open>\<^verbatim>\<open>v >= threshold\<close> with a number on the right: false when \<open>v\<close> reads as \<open>NaN\<close>.\<close>

definition js_ge :: "prim \<Rightarrow> real \<Rightarrow> bool" where
  "js_ge v t = (case to_number v of None \<Rightarrow> False | Some x \<Rightarrow> t \<le> x)"

text \<open>\<^verbatim>\<open>b - a\<close>: \<open>None\<close> is \<open>NaN\<close>.\<close>

definition js_minus :: "prim \<Rightarrow> prim \<Rightarrow> real option" where
  "js_minus b a =
     (case to_number b of
        None \<Rightarrow> None
      | Some y \<Rightarrow> (case to_number a of None \<Rightarrow> None | Some x \<Rightarrow> Some (y - x)))"

subsection \<open>Arrays and objects\<close>

text \<open>
  \<^verbatim>\<open>xs[i]\<close> for an index of any primitive type. A number selects an element when it is an
  integer inside the array; a string selects one when it is the decimal spelling of such an
  index, and \<^verbatim>\<open>length\<close> reads the length. Everything else is \<^verbatim>\<open>undefined\<close> (the methods
  of the array prototype are not modelled).
\<close>

definition array_get :: "jsval list \<Rightarrow> prim \<Rightarrow> jsval" where
  "array_get xs i =
     (case i of
        PNum r \<Rightarrow>
          (if 0 \<le> r \<and> r = of_int \<lfloor>r\<rfloor> \<and> nat \<lfloor>r\<rfloor> < length xs then xs ! nat \<lfloor>r\<rfloor>
           else Prim PUndefined)
      | PStr s \<Rightarrow>
          (if s = ''length'' then Prim (PNum (real (length xs)))
           else (case find (\<lambda>n. show_nat n = s) [0..<length xs] of
                   Some n \<Rightarrow> xs ! n
                 | None \<Rightarrow> Prim PUndefined))
      | _ \<Rightarrow> Prim PUndefined)"

text \<open>\<^verbatim>\<open>d?.k\<close> and \<^verbatim>\<open>d.k\<close> on a value that is not nullish: own properties only.\<close>

fun get_prop :: "heap \<Rightarrow> jsval \<Rightarrow> string \<Rightarrow> jsval" where
  "get_prop h (Ref a) k =
     (case deref h a of
        Obj ps \<Rightarrow> (case map_of ps k of Some v \<Rightarrow> v | None \<Rightarrow> Prim PUndefined)
      | Arr xs \<Rightarrow> array_get xs (PStr k))"
| "get_prop h (Prim p) k = Prim PUndefined"

text \<open>The own enumerable properties that \<^verbatim>\<open>{...d}\<close> copies, in order.\<close>

fun spread :: "heap \<Rightarrow> jsval \<Rightarrow> (string \<times> jsval) list" where
  "spread h (Ref a) =
     (case deref h a of
        Obj ps \<Rightarrow> ps
      | Arr xs \<Rightarrow> zip (map show_nat [0..<length xs]) xs)"
| "spread h (Prim (PStr s)) = zip (map show_nat [0..<length s]) (map (\<lambda>c. Prim (PStr [c])) s)"
| "spread h (Prim p) = []"

fun nullish :: "jsval \<Rightarrow> bool" where
  "nullish (Prim PUndefined) = True"
| "nullish (Prim PNull) = True"
| "nullish v = False"

text \<open>\<^verbatim>\<open>o[k] = v\<close> on a property list: in place when the key is there, at the end otherwise.\<close>

definition obj_set :: "string \<Rightarrow> jsval \<Rightarrow> (string \<times> jsval) list \<Rightarrow> (string \<times> jsval) list" where
  "obj_set k v ps = AList.update k v ps"

text \<open>
  \<^verbatim>\<open>Array.prototype.sort(cmp)\<close>: a stable insertion sort. An element moves behind the
  elements it compares greater than; a comparison that is 0 or \<open>NaN\<close> keeps the order.
\<close>

fun insert_by :: "('a \<Rightarrow> 'a \<Rightarrow> real option) \<Rightarrow> 'a \<Rightarrow> 'a list \<Rightarrow> 'a list" where
  "insert_by cmp x [] = [x]"
| "insert_by cmp x (y # ys) =
     (if (case cmp x y of None \<Rightarrow> False | Some d \<Rightarrow> 0 < d) then y # insert_by cmp x ys
      else x # y # ys)"

definition array_sort :: "('a \<Rightarrow> 'a \<Rightarrow> real option) \<Rightarrow> 'a list \<Rightarrow> 'a list" where
  "array_sort cmp xs = foldr (insert_by cmp) xs []"

text \<open>\<^verbatim>\<open>xs.slice(0, k)\<close>: a negative \<open>k\<close> counts from the end.\<close>

definition slice0 :: "int \<Rightarrow> 'a list \<Rightarrow> 'a list" where
  "slice0 k xs = (if k < 0 then take (nat (int (length xs) + k)) xs else take (nat k) xs)"

section \<open>Result processing\<close>

text \<open>
  An entry of \<^verbatim>\<open>response.results\<close>, by its three fields (a field that is missing is
  \<^verbatim>\<open>undefined\<close>); \<open>None\<close> in the list is a \<^verbatim>\<open>null\<close> or \<^verbatim>\<open>undefined\<close> entry, on which
  reading a field throws. The fields hold primitive values.
\<close>

record raw_result =
  relevance_score :: prim
  score :: prim
  index :: prim

text \<open>
  The object \<^verbatim>\<open>{...originalDoc, _rerankScore: score, _originalIndex: r.index}\<close>, by value:
  the copied fields of the document and the two marker fields, which override copied
  fields of the same name.
\<close>

record scored_result =
  doc_fields :: "(string \<times> jsval) list"
  rerankScore :: prim
  originalIndex :: prim

text \<open>\<^verbatim>\<open>r.relevance_score || r.score || 0\<close>\<close>

definition resolved_score :: "raw_result \<Rightarrow> prim" where
  "resolved_score r = js_or (js_or (relevance_score r) (score r)) (PNum 0)"

text \<open>The \<^verbatim>\<open>filter\<close> pass of \<^verbatim>\<open>processRerankResults\<close>.\<close>

fun filter_results :: "real \<Rightarrow> raw_result option list \<Rightarrow> error + raw_result list" where
  "filter_results threshold [] = Inr []"
| "filter_results threshold (None # rs) = Inl (TypeError ''Cannot read properties of null'')"
| "filter_results threshold (Some r # rs) =
     (case filter_results threshold rs of
        Inl e \<Rightarrow> Inl e
      | Inr kept \<Rightarrow> Inr (if js_ge (resolved_score r) threshold then r # kept else kept))"

text \<open>The body of the \<^verbatim>\<open>map\<close> pass.\<close>

definition make_result :: "heap \<Rightarrow> jsval list \<Rightarrow> bool \<Rightarrow> raw_result \<Rightarrow> error + scored_result" where
  "make_result h originalDocs includeOriginalScores r =
     (let originalDoc = array_get originalDocs (index r);
          result = \<lparr>doc_fields = spread h originalDoc,
                    rerankScore = resolved_score r,
                    originalIndex = index r\<rparr>
      in if includeOriginalScores then
           (if nullish originalDoc then Inl (TypeError ''Cannot read properties of undefined'')
            else if get_prop h originalDoc ''_originalScore'' \<noteq> Prim PUndefined
              then Inr (result\<lparr>doc_fields :=
                     obj_set ''_originalScore'' (get_prop h originalDoc ''_originalScore'')
                       (doc_fields result)\<rparr>)
            else Inr result)
         else Inr result)"

fun map_results :: "(raw_result \<Rightarrow> error + scored_result) \<Rightarrow> raw_result list \<Rightarrow> error + scored_result list" where
  "map_results f [] = Inr []"
| "map_results f (r # rs) =
     (case f r of
        Inl e \<Rightarrow> Inl e
      | Inr x \<Rightarrow> (case map_results f rs of Inl e \<Rightarrow> Inl e | Inr xs \<Rightarrow> Inr (x # xs)))"

text \<open>\<^verbatim>\<open>(a, b) => b._rerankScore - a._rerankScore\<close>\<close>

definition by_score_desc :: "scored_result \<Rightarrow> scored_result \<Rightarrow> real option" where
  "by_score_desc a b = js_minus (rerankScore b) (rerankScore a)"

text \<open>
  \<^verbatim>\<open>processRerankResults(self, results, originalDocs, threshold, includeOriginalScores)\<close>;
  \<open>results = None\<close> is a \<^verbatim>\<open>response.results\<close> that is missing or not an array.
\<close>

definition processRerankResults ::
  "heap \<Rightarrow> raw_result option list option \<Rightarrow> jsval list \<Rightarrow> real \<Rightarrow> bool \<Rightarrow> error + scored_result list" where
  "processRerankResults h results originalDocs threshold includeOriginalScores =
     (case results of
        None \<Rightarrow> Inl (NodeOperationError ''Invalid reranking results: expected array of results'')
      | Some rs \<Rightarrow>
          (case filter_results threshold rs of
             Inl e \<Rightarrow> Inl e
           | Inr kept \<Rightarrow>
               (case map_results (make_result h originalDocs includeOriginalScores) kept of
                  Inl e \<Rightarrow> Inl e
                | Inr out \<Rightarrow> Inr (array_sort by_score_desc out))))"

section \<open>Document text and the cache key\<close>

subsection \<open>\<^verbatim>\<open>JSON.stringify\<close>\<close>

definition hex_char :: "nat \<Rightarrow> char" where
  "hex_char d = (if d < 10 then char_of (48 + d) else char_of (87 + d))"

definition json_escape :: "char \<Rightarrow> string" where
  "json_escape c =
     (let n = (of_char c :: nat)
      in if c = CHR 0x22 then [CHR 0x5C, CHR 0x22]
         else if c = CHR 0x5C then [CHR 0x5C, CHR 0x5C]
         else if n = 8 then [CHR 0x5C, CHR ''b'']
         else if n = 12 then [CHR 0x5C, CHR ''f'']
         else if n = 10 then [CHR 0x5C, CHR ''n'']
         else if n = 13 then [CHR 0x5C, CHR ''r'']
         else if n = 9 then [CHR 0x5C, CHR ''t'']
         else if n < 32 then [CHR 0x5C, CHR ''u'', CHR ''0'', CHR ''0'', hex_char (n div 16), hex_char (n mod 16)]
         else [c])"

definition json_quote :: "string \<Rightarrow> string" where
  "json_quote s = CHR 0x22 # concat (map json_escape s) @ [CHR 0x22]"

fun join_commas :: "string list \<Rightarrow> string" where
  "join_commas [] = []"
| "join_commas [s] = s"
| "join_commas (s # t # ss) = s @ '','' @ join_commas (t # ss)"

text \<open>A primitive as JSON text; \<open>None\<close> is the result \<^verbatim>\<open>undefined\<close>.\<close>

fun prim_json :: "prim \<Rightarrow> string option" where
  "prim_json PUndefined = None"
| "prim_json PNull = Some ''null''"
| "prim_json (PBool b) = Some (if b then ''true'' else ''false'')"
| "prim_json (PNum r) = Some (number_to_string r)"
| "prim_json PNaN = Some ''null''"
| "prim_json (PStr s) = Some (json_quote s)"

text \<open>An array prints \<^verbatim>\<open>undefined\<close> elements as \<^verbatim>\<open>null\<close>; an object leaves such properties out.\<close>

definition array_text :: "string option list \<Rightarrow> string" where
  "array_text rs = ''['' @ join_commas (map (\<lambda>r. case r of None \<Rightarrow> ''null'' | Some s \<Rightarrow> s) rs) @ '']''"

definition object_text :: "(string \<times> string option) list \<Rightarrow> string" where
  "object_text krs =
     ''{'' @ join_commas (concat (map (\<lambda>kr. case snd kr of None \<Rightarrow> [] | Some s \<Rightarrow> [json_quote (fst kr) @ '':'' @ s]) krs)) @ ''}''"

fun sequence_sum :: "('e + 'a) list \<Rightarrow> 'e + 'a list" where
  "sequence_sum [] = Inr []"
| "sequence_sum (Inl e # xs) = Inl e"
| "sequence_sum (Inr x # xs) = (case sequence_sum xs of Inl e \<Rightarrow> Inl e | Inr ys \<Rightarrow> Inr (x # ys))"

text \<open>
  \<^verbatim>\<open>JSON.stringify\<close> walks the value with the stack of the objects it is inside of, and
  throws a \<^verbatim>\<open>TypeError\<close> when it meets one of them again.
\<close>

function stringify :: "heap \<Rightarrow> nat list \<Rightarrow> jsval \<Rightarrow> error + string option" where
  "stringify h stack (Prim p) = Inr (prim_json p)"
| "stringify h stack (Ref a) =
     (if a \<in> set stack then Inl (TypeError ''Converting circular structure to JSON'')
      else (case deref h a of
              Obj ps \<Rightarrow>
                (case sequence_sum (map (\<lambda>kv. stringify h (a # stack) (snd kv)) ps) of
                   Inl e \<Rightarrow> Inl e
                 | Inr rs \<Rightarrow> Inr (Some (object_text (zip (map fst ps) rs))))
            | Arr xs \<Rightarrow>
                (case sequence_sum (map (\<lambda>x. stringify h (a # stack) x) xs) of
                   Inl e \<Rightarrow> Inl e
                 | Inr rs \<Rightarrow> Inr (Some (array_text rs)))))"
  by pat_completeness auto
termination
proof (relation "measure (\<lambda>(h, stack, v). length h - card (set stack \<inter> {..<length h}))")
  show "wf (measure (\<lambda>(h, stack, v). length h - card (set stack \<inter> {..<length h})))"
    by simp
next
  fix h :: heap and stack :: "nat list" and a :: nat and ps kv
  assume fresh: "a \<notin> set stack" and obj: "deref h a = Obj ps" and mem: "kv \<in> set ps"
  have inside: "a < length h"
    using obj mem by (auto simp: deref_def split: if_splits)
  have "card (insert a (set stack \<inter> {..<length h})) = Suc (card (set stack \<inter> {..<length h}))"
    using fresh by simp
  moreover have "card (insert a (set stack \<inter> {..<length h})) \<le> card {..<length h}"
    using inside by (intro card_mono) auto
  moreover have "set (a # stack) \<inter> {..<length h} = insert a (set stack \<inter> {..<length h})"
    using inside by auto
  ultimately show "((h, a # stack, snd kv), (h, stack, Ref a))
      \<in> measure (\<lambda>(h, stack, v). length h - card (set stack \<inter> {..<length h}))"
    by simp
next
  fix h :: heap and stack :: "nat list" and a :: nat and xs x
  assume fresh: "a \<notin> set stack" and arr: "deref h a = Arr xs" and mem: "x \<in> set xs"
  have inside: "a < length h"
    using arr by (auto simp: deref_def split: if_splits)
  have "card (insert a (set stack \<inter> {..<length h})) = Suc (card (set stack \<inter> {..<length h}))"
    using fresh by simp
  moreover have "card (insert a (set stack \<inter> {..<length h})) \<le> card {..<length h}"
    using inside by (intro card_mono) auto
  moreover have "set (a # stack) \<inter> {..<length h} = insert a (set stack \<inter> {..<length h})"
    using inside by auto
  ultimately show "((h, a # stack, x), (h, stack, Ref a))
      \<in> measure (\<lambda>(h, stack, v). length h - card (set stack \<inter> {..<length h}))"
    by simp
qed

subsection \<open>Text extraction\<close>

text \<open>
  The arrow function that \<^verbatim>\<open>createCacheKey\<close> and both adapters map over the documents:
  \<^verbatim>\<open>d => d?.pageContent || d?.text || d?.content || d?.document || JSON.stringify(d)\<close>.
  Its result is whatever value the first truthy field holds, else the JSON text, which is
  \<^verbatim>\<open>undefined\<close> for an \<^verbatim>\<open>undefined\<close> document.
\<close>

definition extractText :: "heap \<Rightarrow> jsval \<Rightarrow> error + jsval" where
  "extractText h d =
     (if truthy_val (get_prop h d ''pageContent'') then Inr (get_prop h d ''pageContent'')
      else if truthy_val (get_prop h d ''text'') then Inr (get_prop h d ''text'')
      else if truthy_val (get_prop h d ''content'') then Inr (get_prop h d ''content'')
      else if truthy_val (get_prop h d ''document'') then Inr (get_prop h d ''document'')
      else (case stringify h [] d of
              Inl e \<Rightarrow> Inl e
            | Inr None \<Rightarrow> Inr (Prim PUndefined)
            | Inr (Some s) \<Rightarrow> Inr (Prim (PStr s))))"

text \<open>\<^verbatim>\<open>docs.map(extractText)\<close>: the first exception ends the map.\<close>

definition documentTexts :: "heap \<Rightarrow> jsval list \<Rightarrow> error + jsval list" where
  "documentTexts h docs = sequence_sum (map (extractText h) docs)"

subsection \<open>The cache key\<close>

definition digit36 :: "int \<Rightarrow> char" where
  "digit36 d = (if d < 10 then char_of (48 + d) else char_of (87 + d))"

function to_base36 :: "int \<Rightarrow> string" where
  "to_base36 n = (if n < 36 then [digit36 n] else to_base36 (n div 36) @ [digit36 (n mod 36)])"
  by pat_completeness auto
termination
  by (relation "measure nat") auto

declare to_base36.simps [simp del]

text \<open>
  \<^verbatim>\<open>simpleHash\<close>: \<^verbatim>\<open>hash = ((hash << 5) - hash) + char; hash = hash & hash\<close> keeps the hash
  a signed 32-bit integer, so the loop is arithmetic on \<open>32 word\<close>. The result is
  \<^verbatim>\<open>Math.abs(hash).toString(36)\<close>. A \<open>char\<close> stands for a UTF-16 code unit below 256.
\<close>

definition simpleHash :: "string \<Rightarrow> string" where
  "simpleHash str =
     to_base36 \<bar>sint (fold (\<lambda>c hash. (push_bit 5 hash - hash) + of_char c) str (0 :: 32 word))\<bar>"

definition createCacheKey :: "heap \<Rightarrow> string \<Rightarrow> jsval list \<Rightarrow> string \<Rightarrow> string \<Rightarrow> error + string" where
  "createCacheKey h query docs service model =
     (case documentTexts h docs of
        Inl e \<Rightarrow> Inl e
      | Inr texts \<Rightarrow>
          (case sequence_sum (map (stringify h []) texts) of
             Inl e \<Rightarrow> Inl e
           | Inr rs \<Rightarrow>
               (let docsString = array_text rs;
                    queryHash = simpleHash query;
                    docsHash = simpleHash docsString
                in Inr (service @ '':'' @ model @ '':'' @ queryHash @ '':'' @ docsHash))))"

section \<open>The result cache\<close>

text \<open>
  \<^verbatim>\<open>rerankCache\<close> is a \<^verbatim>\<open>Map\<close>: an association list in insertion order. \<^verbatim>\<open>Map.set\<close>
  on a key that is present replaces the value where it stands, on a new key it appends
  (\<open>AList.update\<close>); \<^verbatim>\<open>Map.delete\<close> is \<open>AList.delete\<close>. The clock \<^verbatim>\<open>Date.now()\<close> is
  the argument \<open>now\<close>, in milliseconds; \<open>ttlMinutes\<close> is a whole number of minutes, as the
  node parameter \<^verbatim>\<open>cacheTtl\<close> is.
\<close>

record cache_entry =
  results :: "scored_result list"
  timestamp :: int

type_synonym cache = "(string \<times> cache_entry) list"

definition clearCache :: "cache \<Rightarrow> cache" where
  "clearCache c = []"

definition getCachedResult :: "cache \<Rightarrow> int \<Rightarrow> string \<Rightarrow> int \<Rightarrow> scored_result list option \<times> cache" where
  "getCachedResult c now key ttlMinutes =
     (let ttlMs = ttlMinutes * 60 * 1000
      in case map_of c key of
           None \<Rightarrow> (None, c)
         | Some cached \<Rightarrow>
             if now - timestamp cached < ttlMs then (Some (results cached), c)
             else (None, AList.delete key c))"

definition setCachedResult :: "cache \<Rightarrow> int \<Rightarrow> string \<Rightarrow> scored_result list \<Rightarrow> cache" where
  "setCachedResult c now key rs =
     (let c1 = AList.update key \<lparr>results = rs, timestamp = now\<rparr> c
      in if length c1 > 1000 then
           (case c1 of
              [] \<Rightarrow> c1
            | (firstKey, first) # rest \<Rightarrow> if firstKey \<noteq> [] then AList.delete firstKey c1 else c1)
         else c1)"

section \<open>The backend adapters\<close>

text \<open>
  The node parameters of one item, as \<^verbatim>\<open>getNodeParameter(name, itemIndex)\<close> resolves them
  (field \<open>p_x\<close> is parameter \<^verbatim>\<open>x\<close>), and the credential bindings: \<open>Inl e\<close> is a binding
  on which \<^verbatim>\<open>getCredentials\<close> throws \<open>e\<close>, \<open>Inr k\<close> one whose \<^verbatim>\<open>apiKey\<close> is \<open>k\<close>.
\<close>

record node_params =
  p_service :: string
  p_query :: string
  p_documentsField :: string
  p_topK :: int
  p_threshold :: real
  p_includeOriginalScores :: bool
  p_endpoint :: string
  p_model :: string
  p_enableCache :: bool
  p_cacheTtl :: int
  p_enableCustomTemplates :: bool
  p_templatePreset :: string
  p_queryPrefix :: string
  p_querySuffix :: string
  p_documentPrefix :: string
  p_documentSuffix :: string
  p_instruction :: string
  p_cohereModel :: string
  p_cohereCustomModel :: string

record credentials =
  openAiApi :: "error + string"
  cohereApi :: "error + string"
  cohereRerankerApi :: "error + string"

text \<open>
  The request handed to \<^verbatim>\<open>this.helpers.httpRequest\<close> and what comes back: a response with
  its \<^verbatim>\<open>results\<close> field (\<open>None\<close> when the field is missing or not an array), an error
  that carries \<^verbatim>\<open>response.body\<close> and a status code, or any other failure. The transport
  is a parameter of the model. Errors are modelled by class and message; their
  descriptions are left out.
\<close>

record request =
  url :: string
  headers :: "(string \<times> string) list"
  body_model :: string
  body_query :: string
  body_documents :: "jsval list"
  body_top_n :: int

datatype http_outcome =
    HttpOk "raw_result option list option"
  | HttpStatusError nat
  | HttpFailed

type_synonym call_result = "(error + scored_result list) \<times> cache \<times> request list"

text \<open>String conversion inside a template literal.\<close>

fun prim_to_string :: "prim \<Rightarrow> string" where
  "prim_to_string PUndefined = ''undefined''"
| "prim_to_string PNull = ''null''"
| "prim_to_string (PBool b) = (if b then ''true'' else ''false'')"
| "prim_to_string (PNum r) = number_to_string r"
| "prim_to_string PNaN = ''NaN''"
| "prim_to_string (PStr s) = s"

function to_string :: "heap \<Rightarrow> nat list \<Rightarrow> jsval \<Rightarrow> string" where
  "to_string h stack (Prim p) = prim_to_string p"
| "to_string h stack (Ref a) =
     (case deref h a of
        Obj ps \<Rightarrow> ''[object Object]''
      | Arr xs \<Rightarrow>
          if a \<in> set stack then []
          else join_commas (map (\<lambda>x. if nullish x then [] else to_string h (a # stack) x) xs))"
  by pat_completeness auto
termination
proof (relation "measure (\<lambda>(h, stack, v). length h - card (set stack \<inter> {..<length h}))")
  show "wf (measure (\<lambda>(h, stack, v). length h - card (set stack \<inter> {..<length h})))"
    by simp
next
  fix h :: heap and stack :: "nat list" and a :: nat and xs x
  assume arr: "deref h a = Arr xs" and fresh: "a \<notin> set stack"
  have inside: "a < length h"
    using arr by (auto simp: deref_def split: if_splits)
  have "card (insert a (set stack \<inter> {..<length h})) = Suc (card (set stack \<inter> {..<length h}))"
    using fresh by simp
  moreover have "card (insert a (set stack \<inter> {..<length h})) \<le> card {..<length h}"
    using inside by (intro card_mono) auto
  moreover have "set (a # stack) \<inter> {..<length h} = insert a (set stack \<inter> {..<length h})"
    using inside by auto
  ultimately show "((h, a # stack, x), (h, stack, Ref a))
      \<in> measure (\<lambda>(h, stack, v). length h - card (set stack \<inter> {..<length h}))"
    by simp
qed

text \<open>
  The cached branch of both adapters:
  \<^verbatim>\<open>cached.filter(doc => doc._rerankScore >= threshold).slice(0, topK)\<close>.
\<close>

definition serve_cached :: "scored_result list \<Rightarrow> real \<Rightarrow> int \<Rightarrow> scored_result list" where
  "serve_cached cached threshold topK =
     slice0 topK (filter (\<lambda>doc. js_ge (rerankScore doc) threshold) cached)"

text \<open>
  The request that \<^verbatim>\<open>rerankWithOpenAI\<close> builds inside its \<^verbatim>\<open>try\<close> block: the headers,
  and the query and document texts, wrapped in the templates when they are enabled.
\<close>

definition qwen3_queryPrefix :: string where
  "qwen3_queryPrefix =
     ''<|im_start|>system\<newline>Judge whether the Document meets the requirements based on the Query and the Instruct provided. Note that the answer can only be ''
     @ [CHR 0x22] @ ''yes'' @ [CHR 0x22] @ '' or '' @ [CHR 0x22] @ ''no'' @ [CHR 0x22]
     @ ''.<|im_end|>\<newline><|im_start|>user\<newline>''"

definition qwen3_documentSuffix :: string where
  "qwen3_documentSuffix = ''<|im_end|>\<newline><|im_start|>assistant\<newline><think>\<newline>\<newline></think>\<newline>\<newline>''"

definition openai_request :: "node_params \<Rightarrow> credentials \<Rightarrow> heap \<Rightarrow> string \<Rightarrow> jsval list \<Rightarrow> jsval list \<Rightarrow> int \<Rightarrow> request" where
  "openai_request p creds h query docs texts topK =
     (let hdrs = [(''Content-Type'', ''application/json''), (''Accept'', ''application/json'')]
                 @ (case openAiApi creds of
                      Inl e \<Rightarrow> []
                    | Inr apiKey \<Rightarrow> if apiKey \<noteq> [] then [(''Authorization'', ''Bearer '' @ apiKey)] else []);
          queryPrefix = (if p_templatePreset p = ''qwen3'' then qwen3_queryPrefix else p_queryPrefix p);
          querySuffix = (if p_templatePreset p = ''qwen3'' then [] else p_querySuffix p);
          documentPrefix = (if p_templatePreset p = ''qwen3'' then [] else p_documentPrefix p);
          documentSuffix = (if p_templatePreset p = ''qwen3'' then qwen3_documentSuffix else p_documentSuffix p);
          finalQuery =
            (if p_enableCustomTemplates p then
               (if p_templatePreset p = ''qwen3''
                then queryPrefix @ ''<Instruct>: '' @ p_instruction p @ ''\<newline><Query>: '' @ query @ ''\<newline>'' @ querySuffix
                else queryPrefix @ query @ querySuffix)
             else query);
          finalDocuments =
            (if p_enableCustomTemplates p then
               (if p_templatePreset p = ''qwen3''
                then map (\<lambda>doc. Prim (PStr (documentPrefix @ ''<Document>: '' @ to_string h [] doc @ documentSuffix))) texts
                else map (\<lambda>doc. Prim (PStr (documentPrefix @ to_string h [] doc @ documentSuffix))) texts)
             else texts)
      in \<lparr>url = p_endpoint p, headers = hdrs, body_model = p_model p, body_query = finalQuery,
          body_documents = finalDocuments, body_top_n = min topK (int (length docs))\<rparr>)"

text \<open>
  \<^verbatim>\<open>rerankWithOpenAI\<close>, as in the revision with templates and an optional bearer key.
  \<^verbatim>\<open>nodes/shared/rerank.helpers.ts\<close> holds the revision before it, which is this function
  with \<open>p_enableCustomTemplates\<close> false and no \<^verbatim>\<open>Authorization\<close> header. The cache is
  read at time \<open>now\<close> and, after the request, written at time \<open>later\<close>. The result is the
  value returned or the error thrown, the cache afterwards and the requests sent.
\<close>

definition rerankWithOpenAI ::
  "node_params \<Rightarrow> credentials \<Rightarrow> (request \<Rightarrow> http_outcome) \<Rightarrow> heap \<Rightarrow> int \<Rightarrow> int \<Rightarrow> cache
     \<Rightarrow> string \<Rightarrow> jsval list \<Rightarrow> int \<Rightarrow> real \<Rightarrow> bool \<Rightarrow> call_result" where
  "rerankWithOpenAI p creds http h now later c query docs topK threshold includeOriginalScores =
     (case (if p_enableCache p then
              (case createCacheKey h query docs ''openai-compatible'' (p_model p) of
                 Inl e \<Rightarrow> Inl e
               | Inr cacheKey \<Rightarrow> Inr (getCachedResult c now cacheKey (p_cacheTtl p)))
            else Inr (None, c)) of
        Inl e \<Rightarrow> (Inl e, c, [])
      | Inr (Some cached, c1) \<Rightarrow> (Inr (serve_cached cached threshold topK), c1, [])
      | Inr (None, c1) \<Rightarrow>
          (case documentTexts h docs of
             Inl e \<Rightarrow> (Inl e, c1, [])
           | Inr texts \<Rightarrow>
               (let req = openai_request p creds h query docs texts topK
                in case http req of
                     HttpStatusError statusCode \<Rightarrow>
                       (Inl (NodeApiError (''API Error ('' @ show_nat statusCode @ '')'')), c1, [req])
                   | HttpFailed \<Rightarrow> (Inl (NodeApiError ''Request failed''), c1, [req])
                   | HttpOk response_results \<Rightarrow>
                       (case processRerankResults h response_results docs threshold includeOriginalScores of
                          Inl e \<Rightarrow> (Inl (NodeApiError ''Request failed''), c1, [req])
                        | Inr processedResults \<Rightarrow>
                            if p_enableCache p then
                              (case createCacheKey h query docs ''openai-compatible'' (p_model p) of
                                 Inl e \<Rightarrow> (Inl (NodeApiError ''Request failed''), c1, [req])
                               | Inr cacheKey \<Rightarrow>
                                   (Inr processedResults,
                                    setCachedResult c1 later cacheKey processedResults, [req]))
                            else (Inr processedResults, c1, [req])))))"

text \<open>
  \<^verbatim>\<open>rerankWithCohere\<close>: the credential comes from \<^verbatim>\<open>cohereApi\<close>, else from the legacy
  \<^verbatim>\<open>cohereRerankerApi\<close>; when both fail the second exception leaves the function, before
  any parameter is read.
\<close>

definition cohere_request :: "string \<Rightarrow> string \<Rightarrow> string \<Rightarrow> jsval list \<Rightarrow> jsval list \<Rightarrow> int \<Rightarrow> request" where
  "cohere_request apiKey model query docs texts topK =
     \<lparr>url = ''https://api.cohere.ai/v1/rerank'',
      headers = [(''Authorization'', ''Bearer '' @ apiKey), (''Content-Type'', ''application/json''),
                 (''Accept'', ''application/json'')],
      body_model = model, body_query = query, body_documents = texts,
      body_top_n = min topK (int (length docs))\<rparr>"

definition rerankWithCohere ::
  "node_params \<Rightarrow> credentials \<Rightarrow> (request \<Rightarrow> http_outcome) \<Rightarrow> heap \<Rightarrow> int \<Rightarrow> int \<Rightarrow> cache
     \<Rightarrow> string \<Rightarrow> jsval list \<Rightarrow> int \<Rightarrow> real \<Rightarrow> bool \<Rightarrow> call_result" where
  "rerankWithCohere p creds http h now later c query docs topK threshold includeOriginalScores =
     (case (case cohereApi creds of Inr k \<Rightarrow> Inr k | Inl e \<Rightarrow> cohereRerankerApi creds) of
        Inl e \<Rightarrow> (Inl e, c, [])
      | Inr apiKey \<Rightarrow>
          (let model = (if p_cohereModel p = ''custom'' then p_cohereCustomModel p else p_cohereModel p)
           in case (if p_enableCache p then
                      (case createCacheKey h query docs ''cohere'' model of
                         Inl e \<Rightarrow> Inl e
                       | Inr cacheKey \<Rightarrow> Inr (getCachedResult c now cacheKey (p_cacheTtl p)))
                    else Inr (None, c)) of
                Inl e \<Rightarrow> (Inl e, c, [])
              | Inr (Some cached, c1) \<Rightarrow> (Inr (serve_cached cached threshold topK), c1, [])
              | Inr (None, c1) \<Rightarrow>
                  (case documentTexts h docs of
                     Inl e \<Rightarrow> (Inl e, c1, [])
                   | Inr texts \<Rightarrow>
                       (let req = cohere_request apiKey model query docs texts topK
                        in case http req of
                             HttpStatusError statusCode \<Rightarrow>
                               (Inl (NodeApiError (''Cohere API Error ('' @ show_nat statusCode @ '')'')), c1, [req])
                           | HttpFailed \<Rightarrow> (Inl (NodeApiError ''Cohere request failed''), c1, [req])
                           | HttpOk response_results \<Rightarrow>
                               (case processRerankResults h response_results docs threshold includeOriginalScores of
                                  Inl e \<Rightarrow> (Inl (NodeApiError ''Cohere request failed''), c1, [req])
                                | Inr processed \<Rightarrow>
                                    if p_enableCache p then
                                      (case createCacheKey h query docs ''cohere'' model of
                                         Inl e \<Rightarrow> (Inl (NodeApiError ''Cohere request failed''), c1, [req])
                                       | Inr cacheKey \<Rightarrow>
                                           (Inr processed,
                                            setCachedResult c1 later cacheKey processed, [req]))
                                    else (Inr processed, c1, [req]))))))"

section \<open>The flow node\<close>

text \<open>
  \<^verbatim>\<open>UniversalRerankerFlow.execute\<close>. An input item is the property list of its
  \<^verbatim>\<open>json\<close> object. An output item is
  \<^verbatim>\<open>{...items[i].json, rerankedDocs, originalCount, rerankedCount, query}\<close>: the copied
  fields and the four fields that override them.
\<close>

record out_item =
  out_json :: "(string \<times> jsval) list"
  rerankedDocs :: "scored_result list"
  originalCount :: nat
  rerankedCount :: nat
  out_query :: string

text \<open>
  \<^verbatim>\<open>String.prototype.trim\<close> strips white space and line terminators; of these the tab, the
  line feed, the vertical tab, the form feed, the carriage return, the space and the
  no-break space are code units below 256.
\<close>

definition is_space :: "char \<Rightarrow> bool" where
  "is_space ch =
     (let n = (of_char ch :: nat)
      in n = 9 \<or> n = 10 \<or> n = 11 \<or> n = 12 \<or> n = 13 \<or> n = 32 \<or> n = 160)"

definition trim :: "string \<Rightarrow> string" where
  "trim s = rev (dropWhile is_space (rev (dropWhile is_space s)))"

text \<open>
  The \<^verbatim>\<open>catch\<close> of the loop body: a \<^verbatim>\<open>NodeOperationError\<close> is thrown on as it is,
  every other error is wrapped.
\<close>

fun wrap_error :: "error \<Rightarrow> error" where
  "wrap_error (NodeOperationError m) = NodeOperationError m"
| "wrap_error (NodeApiError m) = NodeOperationError (''Reranking failed: '' @ m)"
| "wrap_error (TypeError m) = NodeOperationError (''Reranking failed: '' @ m)"
| "wrap_error (JsError m) = NodeOperationError (''Reranking failed: '' @ m)"

text \<open>The body of the loop for one item: the item pushed or the error thrown.\<close>

definition execute_item ::
  "node_params \<Rightarrow> credentials \<Rightarrow> (request \<Rightarrow> http_outcome) \<Rightarrow> heap \<Rightarrow> int \<Rightarrow> int \<Rightarrow> cache
     \<Rightarrow> (string \<times> jsval) list \<Rightarrow> (error + out_item) \<times> cache \<times> request list" where
  "execute_item p creds http h now later c json =
     (if p_query p = [] \<or> trim (p_query p) = [] then
        (Inl (NodeOperationError ''Query cannot be empty''), c, [])
      else
        (case (case map_of json (p_documentsField p) of
                 None \<Rightarrow> None
               | Some (Prim v) \<Rightarrow> None
               | Some (Ref a) \<Rightarrow> (case deref h a of Obj ps \<Rightarrow> None | Arr xs \<Rightarrow> Some xs)) of
           None \<Rightarrow>
             (Inl (NodeOperationError (''No documents found in field: '' @ p_documentsField p
                     @ ''. Expected an array of documents.'')), c, [])
         | Some docs \<Rightarrow>
             if length docs = 0 then
               (Inr \<lparr>out_json = json, rerankedDocs = [], originalCount = 0, rerankedCount = 0,
                     out_query = p_query p\<rparr>, c, [])
             else
               (case (if p_service p = ''openai-compatible'' then
                        Some (rerankWithOpenAI p creds http h now later c (p_query p) docs (p_topK p)
                                (p_threshold p) (p_includeOriginalScores p))
                      else if p_service p = ''cohere'' then
                        Some (rerankWithCohere p creds http h now later c (p_query p) docs (p_topK p)
                                (p_threshold p) (p_includeOriginalScores p))
                      else None) of
                  None \<Rightarrow> (Inl (NodeOperationError (''Unsupported service: '' @ p_service p)), c, [])
                | Some (Inl e, c1, reqs) \<Rightarrow> (Inl (wrap_error e), c1, reqs)
                | Some (Inr reranked, c1, reqs) \<Rightarrow>
                    (Inr \<lparr>out_json = json, rerankedDocs = reranked, originalCount = length docs,
                          rerankedCount = length reranked, out_query = p_query p\<rparr>, c1, reqs))))"

text \<open>
  The loop over the items, from item \<open>i\<close> on. Parameters, transport and clock readings
  may differ from item to item; the first error ends the run.
\<close>

fun execute_from ::
  "(nat \<Rightarrow> node_params) \<Rightarrow> credentials \<Rightarrow> (nat \<Rightarrow> request \<Rightarrow> http_outcome) \<Rightarrow> heap
     \<Rightarrow> (nat \<Rightarrow> int \<times> int) \<Rightarrow> nat \<Rightarrow> (string \<times> jsval) list list \<Rightarrow> cache
     \<Rightarrow> (error + out_item list) \<times> cache \<times> request list" where
  "execute_from params creds http h clock i [] c = (Inr [], c, [])"
| "execute_from params creds http h clock i (json # items) c =
     (case execute_item (params i) creds (http i) h (fst (clock i)) (snd (clock i)) c json of
        (Inl e, c1, reqs) \<Rightarrow> (Inl e, c1, reqs)
      | (Inr out, c1, reqs) \<Rightarrow>
          (case execute_from params creds http h clock (Suc i) items c1 of
             (Inl e, c2, reqs2) \<Rightarrow> (Inl e, c2, reqs @ reqs2)
           | (Inr outs, c2, reqs2) \<Rightarrow> (Inr (out # outs), c2, reqs @ reqs2)))"

definition execute ::
  "(nat \<Rightarrow> node_params) \<Rightarrow> credentials \<Rightarrow> (nat \<Rightarrow> request \<Rightarrow> http_outcome) \<Rightarrow> heap
     \<Rightarrow> (nat \<Rightarrow> int \<times> int) \<Rightarrow> (string \<times> jsval) list list \<Rightarrow> cache
     \<Rightarrow> (error + out_item list) \<times> cache \<times> request list" where
  "execute params creds http h clock items c = execute_from params creds http h clock 0 items c"

section \<open>Predicates and example inputs of the properties\<close>

text \<open>
  \<open>score_ge a b\<close>: both scores read as numbers and the score of \<open>a\<close> is at least the
  score of \<open>b\<close>. A list is in non-increasing order of score when it is sorted with respect
  to \<open>score_ge\<close>.
\<close>

definition score_ge :: "scored_result \<Rightarrow> scored_result \<Rightarrow> bool" where
  "score_ge a b =
     (case to_number (rerankScore a) of
        None \<Rightarrow> False
      | Some x \<Rightarrow> (case to_number (rerankScore b) of None \<Rightarrow> False | Some y \<Rightarrow> y \<le> x))"

definition numeric :: "scored_result \<Rightarrow> bool" where
  "numeric a = (to_number (rerankScore a) \<noteq> None)"

text \<open>What every cache that the module can hold satisfies.\<close>

definition cache_inv :: "cache \<Rightarrow> bool" where
  "cache_inv c = (length c \<le> 1000 \<and> distinct (map fst c) \<and> [] \<notin> set (map fst c))"

text \<open>Every list in the cache is in non-increasing order of score.\<close>

definition cache_sorted :: "cache \<Rightarrow> bool" where
  "cache_sorted c = list_all (\<lambda>kv. sorted_wrt score_ge (results (snd kv))) c"

text \<open>Three documents with a \<^verbatim>\<open>pageContent\<close> field, and a backend entry with a score.\<close>

definition example_heap :: heap where
  "example_heap =
     [Obj [(''pageContent'', Prim (PStr ''doc 0''))],
      Obj [(''pageContent'', Prim (PStr ''doc 1''))],
      Obj [(''pageContent'', Prim (PStr ''doc 2''))]]"

definition example_doc :: "nat \<Rightarrow> real \<Rightarrow> scored_result" where
  "example_doc i s =
     \<lparr>doc_fields = [(''pageContent'', Prim (PStr (''doc '' @ show_nat i)))],
      rerankScore = PNum s, originalIndex = PNum (real i)\<rparr>"

definition entry :: "nat \<Rightarrow> real \<Rightarrow> raw_result option" where
  "entry i s = Some \<lparr>relevance_score = PNum s, score = PUndefined, index = PNum (real i)\<rparr>"

text \<open>
  The document of the test \<^verbatim>\<open>should handle circular reference objects gracefully\<close>,
  \<^verbatim>\<open>{ content: 'test content', metadata: {} }\<close> with \<^verbatim>\<open>self\<close> set to the document, and
  the same document without its \<^verbatim>\<open>content\<close> field.
\<close>

definition circular_heap_with_content :: heap where
  "circular_heap_with_content =
     [Obj [(''content'', Prim (PStr ''test content'')), (''metadata'', Ref 1), (''self'', Ref 0)], Obj []]"

definition circular_heap :: heap where
  "circular_heap = [Obj [(''metadata'', Ref 1), (''self'', Ref 0)], Obj []]"

definition example_params :: node_params where
  "example_params =
     \<lparr>p_service = ''openai-compatible'', p_query = ''test query'', p_documentsField = ''documents'',
      p_topK = 10, p_threshold = 0, p_includeOriginalScores = False,
      p_endpoint = ''http://localhost:8000/v1/rerank'', p_model = ''test-model'',
      p_enableCache = True, p_cacheTtl = 5, p_enableCustomTemplates = False,
      p_templatePreset = ''qwen3'', p_queryPrefix = [], p_querySuffix = [], p_documentPrefix = [],
      p_documentSuffix = [],
      p_instruction = ''Given a web search query, retrieve relevant passages that answer the query'',
      p_cohereModel = ''rerank-v3.5'', p_cohereCustomModel = []\<rparr>"

definition no_credentials :: credentials where
  "no_credentials =
     \<lparr>openAiApi = Inl (JsError ''No credentials found''),
      cohereApi = Inl (JsError ''No credentials found''),
      cohereRerankerApi = Inl (JsError ''No credentials found'')\<rparr>"

text \<open>
  Both adapters have one shape: look the key up, serve the cached list, or else extract the
  texts, send the request, process the response and store the list. \<open>rerank_call\<close> is
  that shape with the service name, the model, the request builder and the two errors as
  arguments; each adapter is an instance of it (\<open>rerankWithOpenAI_call\<close>,
  \<open>rerankWithCohere_call\<close> below).
\<close>

definition rerank_call ::
  "string \<Rightarrow> string \<Rightarrow> bool \<Rightarrow> int \<Rightarrow> (jsval list \<Rightarrow> request) \<Rightarrow> (nat \<Rightarrow> error) \<Rightarrow> error
     \<Rightarrow> (request \<Rightarrow> http_outcome) \<Rightarrow> heap \<Rightarrow> int \<Rightarrow> int \<Rightarrow> cache
     \<Rightarrow> string \<Rightarrow> jsval list \<Rightarrow> int \<Rightarrow> real \<Rightarrow> bool \<Rightarrow> call_result" where
  "rerank_call service model enableCache cacheTtl build apiError failed http h now later c query docs topK
      threshold includeOriginalScores =
     (case (if enableCache then
              (case createCacheKey h query docs service model of
                 Inl e \<Rightarrow> Inl e
               | Inr cacheKey \<Rightarrow> Inr (getCachedResult c now cacheKey cacheTtl))
            else Inr (None, c)) of
        Inl e \<Rightarrow> (Inl e, c, [])
      | Inr (Some cached, c1) \<Rightarrow> (Inr (serve_cached cached threshold topK), c1, [])
      | Inr (None, c1) \<Rightarrow>
          (case documentTexts h docs of
             Inl e \<Rightarrow> (Inl e, c1, [])
           | Inr texts \<Rightarrow>
               (case http (build texts) of
                  HttpStatusError statusCode \<Rightarrow> (Inl (apiError statusCode), c1, [build texts])
                | HttpFailed \<Rightarrow> (Inl failed, c1, [build texts])
                | HttpOk response_results \<Rightarrow>
                    (case processRerankResults h response_results docs threshold includeOriginalScores of
                       Inl e \<Rightarrow> (Inl failed, c1, [build texts])
                     | Inr processed \<Rightarrow>
                         if enableCache then
                           (case createCacheKey h query docs service model of
                              Inl e \<Rightarrow> (Inl failed, c1, [build texts])
                            | Inr cacheKey \<Rightarrow>
                                (Inr processed, setCachedResult c1 later cacheKey processed, [build texts]))
                         else (Inr processed, c1, [build texts])))))"

text \<open>
  The caches the module can hold: empty when the module is loaded, and whatever
  \<^verbatim>\<open>clearCache\<close> and the two adapters leave behind.
\<close>

inductive reachable :: "cache \<Rightarrow> bool" where
  loaded: "reachable []"
| cleared: "reachable c \<Longrightarrow> reachable (clearCache c)"
| openai: "reachable c \<Longrightarrow>
     rerankWithOpenAI p creds http h now later c query docs topK threshold inc = (r, c', reqs) \<Longrightarrow>
     reachable c'"
| cohere: "reachable c \<Longrightarrow>
     rerankWithCohere p creds http h now later c query docs topK threshold inc = (r, c', reqs) \<Longrightarrow>
     reachable c'"

text \<open>A run of \<^verbatim>\<open>setCachedResult\<close> calls, each with its key, clock reading and list.\<close>

definition put_all :: "(string \<times> int \<times> scored_result list) list \<Rightarrow> cache \<Rightarrow> cache" where
  "put_all puts c = fold (\<lambda>(key, now, rs) c. setCachedResult c now key rs) puts c"

definition stored :: "string \<times> int \<times> scored_result list \<Rightarrow> string \<times> cache_entry" where
  "stored put = (fst put, \<lparr>results = snd (snd put), timestamp = fst (snd put)\<rparr>)"

definition example_cache :: cache where
  "example_cache =
     [(''a'', \<lparr>results = [], timestamp = 0\<rparr>),
      (''b'', \<lparr>results = [example_doc 0 0.5], timestamp = 1000\<rparr>)]"

definition example_puts :: "(string \<times> int \<times> scored_result list) list" where
  "example_puts = map (\<lambda>n. (replicate (Suc n) CHR ''k'', int n, [])) [0..<1001]"

text \<open>
  A backend that answers every request with two entries, the cache key of the query
  \<^verbatim>\<open>test query\<close> over the first two example documents, a heap that also holds the
  documents array of a flow item and an empty array, and parameters with custom templates.
\<close>

definition example_response :: "request \<Rightarrow> http_outcome" where
  "example_response req = HttpOk (Some [entry 0 0.9, entry 1 0.5])"

definition example_key :: string where
  "example_key = ''openai-compatible:test-model:'' @ simpleHash ''test query'' @ '':''
     @ simpleHash (array_text [Some (json_quote ''doc 0''), Some (json_quote ''doc 1'')])"

definition flow_heap :: heap where
  "flow_heap = example_heap @ [Arr [Ref 0, Ref 1], Arr []]"

definition templated_params :: node_params where
  "templated_params = example_params\<lparr>p_enableCustomTemplates := True, p_templatePreset := ''custom'',
     p_queryPrefix := ''Q: '', p_querySuffix := '' ?'', p_documentPrefix := ''D: '',
     p_documentSuffix := [], p_instruction := []\<rparr>"

section \<open>Properties of result processing\<close>

lemma set_insert_by: "set (insert_by cmp x ys) = insert x (set ys)"
  by (induction ys) auto

lemma set_array_sort: "set (array_sort cmp xs) = set xs"
  by (induction xs) (auto simp: array_sort_def set_insert_by)

lemma length_insert_by: "length (insert_by cmp x ys) = Suc (length ys)"
  by (induction ys) auto

lemma length_array_sort: "length (array_sort cmp xs) = length xs"
  by (induction xs) (auto simp: array_sort_def length_insert_by)

lemma score_ge_trans: "score_ge a b \<Longrightarrow> score_ge b c \<Longrightarrow> score_ge a c"
  by (auto simp: score_ge_def split: option.splits)

lemma sorted_insert_by:
  assumes "sorted_wrt score_ge ys" "numeric x" "list_all numeric ys"
  shows "sorted_wrt score_ge (insert_by by_score_desc x ys)"
  using assms
proof (induction ys)
  case Nil
  then show ?case by simp
next
  case (Cons y ys)
  obtain a where a: "to_number (rerankScore x) = Some a"
    using Cons.prems(2) by (auto simp: numeric_def)
  obtain b where b: "to_number (rerankScore y) = Some b"
    using Cons.prems(3) by (auto simp: numeric_def)
  show ?case
  proof (cases "a < b")
    case True
    then have go: "insert_by by_score_desc x (y # ys) = y # insert_by by_score_desc x ys"
      using a b by (simp add: by_score_desc_def js_minus_def)
    have yx: "score_ge y x" using True a b by (simp add: score_ge_def)
    have "sorted_wrt score_ge (insert_by by_score_desc x ys)"
      using Cons by simp
    moreover have "\<forall>z \<in> set (insert_by by_score_desc x ys). score_ge y z"
      using Cons.prems(1) yx by (auto simp: set_insert_by)
    ultimately show ?thesis using go by simp
  next
    case False
    then have stop: "insert_by by_score_desc x (y # ys) = x # y # ys"
      using a b by (simp add: by_score_desc_def js_minus_def)
    have xy: "score_ge x y" using False a b by (simp add: score_ge_def)
    have "\<forall>z \<in> set ys. score_ge x z"
      using Cons.prems(1) xy score_ge_trans by auto
    then show ?thesis using stop xy Cons.prems(1) by simp
  qed
qed

lemma sorted_array_sort:
  "list_all numeric xs \<Longrightarrow> sorted_wrt score_ge (array_sort by_score_desc xs)"
proof (induction xs)
  case Nil
  then show ?case by (simp add: array_sort_def)
next
  case (Cons x xs)
  have "list_all numeric (array_sort by_score_desc xs)"
    using Cons.prems by (simp add: list_all_iff set_array_sort)
  then have "sorted_wrt score_ge (insert_by by_score_desc x (array_sort by_score_desc xs))"
    using Cons by (intro sorted_insert_by) auto
  then show ?case by (simp add: array_sort_def)
qed

lemma filter_results_kept:
  "filter_results t rs = Inr kept \<Longrightarrow> r \<in> set kept \<Longrightarrow> js_ge (resolved_score r) t"
proof (induction t rs arbitrary: kept rule: filter_results.induct)
  case (1 t)
  then show ?case by simp
next
  case (2 t rs)
  then show ?case by simp
next
  case (3 t r' rs)
  then show ?case by (auto split: sum.splits if_splits)
qed

lemma make_result_score:
  "make_result h docs inc r = Inr x \<Longrightarrow> rerankScore x = resolved_score r"
  by (auto simp: make_result_def Let_def split: if_splits)

lemma map_results_from:
  "map_results f rs = Inr out \<Longrightarrow> x \<in> set out \<Longrightarrow> \<exists>r \<in> set rs. f r = Inr x"
proof (induction rs arbitrary: out)
  case Nil
  then show ?case by simp
next
  case (Cons r rs)
  obtain y ys where y: "f r = Inr y" and ys: "map_results f rs = Inr ys" and o: "out = y # ys"
    using Cons.prems(1) by (auto split: sum.splits)
  show ?case
  proof (cases "x = y")
    case True
    then show ?thesis using y by auto
  next
    case False
    then have "x \<in> set ys" using Cons.prems(2) o by simp
    then show ?thesis using Cons.IH [OF ys] by auto
  qed
qed

lemma process_scores:
  assumes "processRerankResults h rs docs t inc = Inr out" "x \<in> set out"
  shows "js_ge (rerankScore x) t"
proof -
  obtain raw kept mapped where
    "rs = Some raw" and k: "filter_results t raw = Inr kept"
    and m: "map_results (make_result h docs inc) kept = Inr mapped"
    and o: "out = array_sort by_score_desc mapped"
    using assms(1) by (auto simp: processRerankResults_def split: option.splits sum.splits)
  have "x \<in> set mapped" using assms(2) o by (simp add: set_array_sort)
  then obtain r where "r \<in> set kept" "make_result h docs inc r = Inr x"
    using map_results_from [OF m] by blast
  then show ?thesis
    using filter_results_kept [OF k] make_result_score by metis
qed

lemma js_ge_numeric: "js_ge (rerankScore x) t \<Longrightarrow> numeric x"
  by (auto simp: js_ge_def numeric_def split: option.splits)

lemma sorted_wrt_filter_keeps: "sorted_wrt P xs \<Longrightarrow> sorted_wrt P (filter Q xs)"
  by (induction xs) auto

lemma sorted_wrt_take_keeps: "sorted_wrt P xs \<Longrightarrow> sorted_wrt P (take n xs)"
  by (induction xs arbitrary: n) (auto simp: take_Cons split: nat.splits dest: in_set_takeD)

lemma set_slice0: "set (slice0 k xs) \<subseteq> set xs"
  by (auto simp: slice0_def dest: in_set_takeD)

lemma process_sorted:
  assumes "processRerankResults h rs docs t inc = Inr out"
  shows "sorted_wrt score_ge out"
proof -
  obtain mapped where o: "out = array_sort by_score_desc mapped"
    using assms by (auto simp: processRerankResults_def split: option.splits sum.splits)
  have "list_all numeric mapped"
    using process_scores [OF assms] o js_ge_numeric by (auto simp: list_all_iff set_array_sort)
  then show ?thesis
    using o sorted_array_sort by simp
qed

lemma process_example:
  "processRerankResults example_heap (Some [entry 0 0.4, entry 1 0.9, entry 2 0.1])
     [Ref 0, Ref 1, Ref 2] 0.3 False = Inr [example_doc 1 0.9, example_doc 0 0.4]"
  by code_simp

lemma missing_score_is_zero:
  assumes "\<not> truthy (relevance_score r)" "\<not> truthy (score r)"
  shows "resolved_score r = PNum 0 \<and> (js_ge (resolved_score r) t \<longleftrightarrow> t \<le> 0)"
  using assms by (simp add: resolved_score_def js_or_def js_ge_def)

text \<open>
  C7. The resolved score is \<^verbatim>\<open>r.relevance_score || r.score || 0\<close>, so a missing or falsy
  score resolves to 0 (\<open>missing_score_is_zero\<close>). A score that is truthy and not numeric is
  not replaced by 0: the entry of the test \<^verbatim>\<open>should handle results with missing score
  fields\<close> with \<^verbatim>\<open>relevance_score: 'invalid'\<close> resolves to the string, which fails the
  comparison with every threshold. Under threshold 0 that entry is dropped, while an entry
  without a score is kept with score 0.
\<close>

theorem non_numeric_score_dropped_under_zero_threshold:
  "resolved_score \<lparr>relevance_score = PStr ''invalid'', score = PUndefined, index = PNum 0\<rparr>
     = PStr ''invalid'' \<and>
   processRerankResults example_heap
     (Some [Some \<lparr>relevance_score = PStr ''invalid'', score = PUndefined, index = PNum 0\<rparr>])
     [Ref 0, Ref 1, Ref 2] 0 False = Inr [] \<and>
   processRerankResults example_heap
     (Some [Some \<lparr>relevance_score = PUndefined, score = PUndefined, index = PNum 0\<rparr>])
     [Ref 0, Ref 1, Ref 2] 0 False = Inr [example_doc 0 0]"
  by code_simp

section \<open>Properties of text extraction\<close>

lemma extractText_with_content:
  "extractText circular_heap_with_content (Ref 0) = Inr (Prim (PStr ''test content''))"
  by code_simp

text \<open>
  C3. Text extraction of a document that contains itself and has none of the four text
  fields: \<^verbatim>\<open>JSON.stringify\<close> throws, so the extraction throws, and so do
  \<^verbatim>\<open>createCacheKey\<close> and the adapter, with the cache on or off, before any request is
  sent. (With its \<^verbatim>\<open>content\<close> field the document of the repository's test extracts to
  that field: \<open>extractText_with_content\<close>.)
\<close>

theorem circular_document_without_text_throws:
  "extractText circular_heap (Ref 0) = Inl (TypeError ''Converting circular structure to JSON'') \<and>
   createCacheKey circular_heap ''test query'' [Ref 0] ''openai-compatible'' ''test-model''
     = Inl (TypeError ''Converting circular structure to JSON'') \<and>
   rerankWithOpenAI example_params no_credentials (\<lambda>req. HttpOk (Some [entry 0 0.8])) circular_heap
     0 0 [] ''test query'' [Ref 0] 10 0 False
     = (Inl (TypeError ''Converting circular structure to JSON''), [], []) \<and>
   rerankWithOpenAI (example_params\<lparr>p_enableCache := False\<rparr>) no_credentials
     (\<lambda>req. HttpOk (Some [entry 0 0.8])) circular_heap 0 0 [] ''test query'' [Ref 0] 10 0 False
     = (Inl (TypeError ''Converting circular structure to JSON''), [], [])"
  by code_simp

section \<open>Properties of the cache\<close>

lemma length_update_new: "k \<notin> fst ` set al \<Longrightarrow> AList.update k v al = al @ [(k, v)]"
  by (induction al) auto

lemma length_update_old: "k \<in> fst ` set al \<Longrightarrow> length (AList.update k v al) = length al"
  by (induction al) auto

lemma map_fst_update_old: "k \<in> fst ` set al \<Longrightarrow> map fst (AList.update k v al) = map fst al"
  by (induction al) auto

lemma delete_head: "distinct (map fst ((k, v) # al)) \<Longrightarrow> AList.delete k ((k, v) # al) = al"
  by (induction al) (auto simp: AList.delete_eq)

lemma map_fst_delete: "map fst (AList.delete k al) = filter (\<lambda>x. x \<noteq> k) (map fst al)"
  by (induction al) (auto simp: AList.delete_eq)

lemma createCacheKey_nonempty: "createCacheKey h query docs service model = Inr key \<Longrightarrow> key \<noteq> []"
  by (auto simp: createCacheKey_def Let_def split: sum.splits)

lemma getCachedResult_inv: "cache_inv c \<Longrightarrow> cache_inv (snd (getCachedResult c now key ttl))"
proof -
  assume inv: "cache_inv c"
  have "length (AList.delete key c) \<le> length c" by (rule length_delete_le)
  moreover have "distinct (map fst (AList.delete key c))" using inv by (simp add: cache_inv_def distinct_delete)
  moreover have "[] \<notin> set (map fst (AList.delete key c))" using inv by (auto simp: cache_inv_def map_fst_delete)
  ultimately have "cache_inv (AList.delete key c)" using inv by (simp add: cache_inv_def)
  then show ?thesis using inv by (auto simp: getCachedResult_def Let_def split: option.splits)
qed

lemma setCachedResult_new_small:
  assumes "key \<notin> fst ` set c" "length c < 1000"
  shows "setCachedResult c now key rs = c @ [(key, \<lparr>results = rs, timestamp = now\<rparr>)]"
  using assms by (simp add: setCachedResult_def length_update_new)

lemma setCachedResult_new_full:
  assumes "key \<notin> fst ` set c" "length c = 1000" "distinct (map fst c)" "[] \<notin> set (map fst c)"
  shows "setCachedResult c now key rs = tl c @ [(key, \<lparr>results = rs, timestamp = now\<rparr>)]"
proof -
  obtain k v rest where c: "c = (k, v) # rest"
    using assms(2) by (cases c) auto
  have k: "k \<noteq> []" using assms(4) c by auto
  have d: "distinct (map fst ((k, v) # rest @ [(key, \<lparr>results = rs, timestamp = now\<rparr>)]))"
    using assms(1,3) c by auto
  have "setCachedResult c now key rs = AList.delete k ((k, v) # rest @ [(key, \<lparr>results = rs, timestamp = now\<rparr>)])"
    using assms(1,2) c k by (simp add: setCachedResult_def length_update_new del: AList.update.simps)
  also have "\<dots> = rest @ [(key, \<lparr>results = rs, timestamp = now\<rparr>)]"
    using d by (rule delete_head)
  finally show ?thesis using c by simp
qed

lemma setCachedResult_old:
  assumes "key \<in> fst ` set c" "length c \<le> 1000"
  shows "setCachedResult c now key rs = AList.update key \<lparr>results = rs, timestamp = now\<rparr> c"
  using assms by (simp add: setCachedResult_def length_update_old)

lemma setCachedResult_inv:
  assumes "cache_inv c" "key \<noteq> []"
  shows "cache_inv (setCachedResult c now key rs)"
proof (cases "key \<in> fst ` set c")
  case True
  then show ?thesis
    using assms setCachedResult_old [of key c now rs]
    by (auto simp: cache_inv_def length_update_old map_fst_update_old)
next
  case False
  show ?thesis
  proof (cases "length c = 1000")
    case full: True
    have "setCachedResult c now key rs = tl c @ [(key, \<lparr>results = rs, timestamp = now\<rparr>)]"
      using False full assms(1) by (intro setCachedResult_new_full) (auto simp: cache_inv_def)
    moreover have "distinct (map fst (tl c))" using assms(1) by (simp add: cache_inv_def map_tl distinct_tl)
    moreover have "set (tl c) \<subseteq> set c" by (cases c) auto
    ultimately show ?thesis using assms False full by (auto simp: cache_inv_def)
  next
    case notfull: False
    then have "length c < 1000" using assms(1) by (simp add: cache_inv_def)
    then show ?thesis
      using assms False setCachedResult_new_small [of key c now rs] by (auto simp: cache_inv_def)
  qed
qed


text \<open>
  C5. \<^verbatim>\<open>getCachedResult\<close> returns a list exactly when the key has an entry younger than
  \<open>ttlMinutes * 60000\<close> milliseconds, and then it is the stored list and the cache is as
  before. When the entry is there but not younger, nothing is returned and the entry is
  gone afterwards: the other keys keep their entries and their order. When the key has no
  entry, nothing is returned and the cache is as before.
\<close>

theorem getCachedResult_contract:
  "(fst (getCachedResult c now key ttlMinutes) = Some rs \<longleftrightarrow>
      (\<exists>e. map_of c key = Some e \<and> now - timestamp e < ttlMinutes * 60000 \<and> results e = rs)) \<and>
   (\<forall>e. map_of c key = Some e \<and> now - timestamp e < ttlMinutes * 60000 \<longrightarrow>
      snd (getCachedResult c now key ttlMinutes) = c) \<and>
   (\<forall>e. map_of c key = Some e \<and> \<not> now - timestamp e < ttlMinutes * 60000 \<longrightarrow>
      fst (getCachedResult c now key ttlMinutes) = None \<and>
      map_of (snd (getCachedResult c now key ttlMinutes)) = (map_of c)(key := None) \<and>
      map fst (snd (getCachedResult c now key ttlMinutes)) = filter (\<lambda>k. k \<noteq> key) (map fst c)) \<and>
   (map_of c key = None \<longrightarrow> getCachedResult c now key ttlMinutes = (None, c))"
proof (cases "map_of c key")
  case None
  then show ?thesis by (simp add: getCachedResult_def)
next
  case (Some e)
  show ?thesis
  proof (cases "now - timestamp e < ttlMinutes * 60000")
    case True
    then show ?thesis using Some by (auto simp: getCachedResult_def)
  next
    case False
    then show ?thesis
      using Some by (auto simp: getCachedResult_def delete_conv' map_fst_delete)
  qed
qed

theorem getCachedResult_contract_witness:
  "getCachedResult example_cache 300500 ''b'' 5 = (Some [example_doc 0 0.5], example_cache) \<and>
   fst (getCachedResult example_cache 300500 ''a'' 5) = None \<and>
   map fst (snd (getCachedResult example_cache 300500 ''a'' 5)) = [''b''] \<and>
   getCachedResult example_cache 300500 ''c'' 5 = (None, example_cache)"
proof -
  have a: "map_of example_cache ''a'' = Some \<lparr>results = [], timestamp = 0\<rparr>"
    and b: "map_of example_cache ''b'' = Some \<lparr>results = [example_doc 0 0.5], timestamp = 1000\<rparr>"
    and c: "map_of example_cache ''c'' = None"
    and k: "map fst example_cache = [''a'', ''b'']"
    by (simp_all add: example_cache_def)
  have "fst (getCachedResult example_cache 300500 ''b'' 5) = Some [example_doc 0 0.5]"
    and "snd (getCachedResult example_cache 300500 ''b'' 5) = example_cache"
    using getCachedResult_contract [of example_cache 300500 "''b''" 5 "[example_doc 0 0.5]"] b
    by simp_all
  then have hit: "getCachedResult example_cache 300500 ''b'' 5 = (Some [example_doc 0 0.5], example_cache)"
    by (simp add: prod_eq_iff)
  have gone: "fst (getCachedResult example_cache 300500 ''a'' 5) = None \<and>
      map fst (snd (getCachedResult example_cache 300500 ''a'' 5)) = [''b'']"
    using getCachedResult_contract [of example_cache 300500 "''a''" 5 "[]"] a k by simp
  have miss: "getCachedResult example_cache 300500 ''c'' 5 = (None, example_cache)"
    using getCachedResult_contract [of example_cache 300500 "''c''" 5 "[]"] c by simp
  show ?thesis using hit gone miss by simp
qed

lemma rerankWithOpenAI_call:
  "rerankWithOpenAI p creds http h now later c query docs topK threshold inc =
     rerank_call ''openai-compatible'' (p_model p) (p_enableCache p) (p_cacheTtl p)
       (\<lambda>texts. openai_request p creds h query docs texts topK)
       (\<lambda>statusCode. NodeApiError (''API Error ('' @ show_nat statusCode @ '')''))
       (NodeApiError ''Request failed'') http h now later c query docs topK threshold inc"
  unfolding rerankWithOpenAI_def rerank_call_def Let_def by (rule refl)

lemma rerankWithCohere_call:
  "rerankWithCohere p creds http h now later c query docs topK threshold inc =
     (case (case cohereApi creds of Inr k \<Rightarrow> Inr k | Inl e \<Rightarrow> cohereRerankerApi creds) of
        Inl e \<Rightarrow> (Inl e, c, [])
      | Inr apiKey \<Rightarrow>
          rerank_call ''cohere'' (if p_cohereModel p = ''custom'' then p_cohereCustomModel p else p_cohereModel p)
            (p_enableCache p) (p_cacheTtl p)
            (\<lambda>texts. cohere_request apiKey
                (if p_cohereModel p = ''custom'' then p_cohereCustomModel p else p_cohereModel p)
                query docs texts topK)
            (\<lambda>statusCode. NodeApiError (''Cohere API Error ('' @ show_nat statusCode @ '')''))
            (NodeApiError ''Cohere request failed'') http h now later c query docs topK threshold inc)"
  unfolding rerankWithCohere_def rerank_call_def Let_def by (rule refl)

lemma rerank_call_no_cache:
  "\<not> enableCache \<Longrightarrow>
   rerank_call service model enableCache ttl build apiError failed http h now later c query docs topK threshold inc = (r, c', reqs)
   \<Longrightarrow> c' = c"
  by (auto simp: rerank_call_def split: sum.splits http_outcome.splits)

lemma rerank_call_key_error:
  "enableCache \<Longrightarrow> createCacheKey h query docs service model = Inl e \<Longrightarrow>
   rerank_call service model enableCache ttl build apiError failed http h now later c query docs topK threshold inc = (Inl e, c, [])"
  by (simp add: rerank_call_def)

lemma rerank_call_hit:
  "enableCache \<Longrightarrow> createCacheKey h query docs service model = Inr key \<Longrightarrow>
   getCachedResult c now key ttl = (Some cached, c1) \<Longrightarrow>
   rerank_call service model enableCache ttl build apiError failed http h now later c query docs topK threshold inc
     = (Inr (serve_cached cached threshold topK), c1, [])"
  by (simp add: rerank_call_def)

lemma rerank_call_miss:
  "enableCache \<Longrightarrow> createCacheKey h query docs service model = Inr key \<Longrightarrow>
   getCachedResult c now key ttl = (None, c1) \<Longrightarrow>
   rerank_call service model enableCache ttl build apiError failed http h now later c query docs topK threshold inc
     = (r, c', reqs) \<Longrightarrow>
   (case r of
      Inl e \<Rightarrow> c' = c1
    | Inr out \<Rightarrow>
        processRerankResults h (case http (hd reqs) of HttpOk rs \<Rightarrow> rs | _ \<Rightarrow> None) docs threshold inc = Inr out \<and>
        c' = setCachedResult c1 later key out)"
  by (auto simp: rerank_call_def split: sum.splits http_outcome.splits)

lemma rerank_call_inv:
  assumes inv: "cache_inv c"
    and call: "rerank_call service model enableCache ttl build apiError failed http h now later c query docs topK threshold inc = (r, c', reqs)"
  shows "cache_inv c'"
proof (cases enableCache)
  case False
  then show ?thesis using rerank_call_no_cache [OF _ call] inv by simp
next
  case True
  show ?thesis
  proof (cases "createCacheKey h query docs service model")
    case (Inl e)
    then show ?thesis using rerank_call_key_error [OF True Inl] call inv by simp
  next
    case (Inr key)
    obtain found c1 where g: "getCachedResult c now key ttl = (found, c1)"
      by (cases "getCachedResult c now key ttl")
    have c1: "cache_inv c1"
      using getCachedResult_inv [OF inv, of now key ttl] g by simp
    show ?thesis
    proof (cases found)
      case (Some cached)
      then show ?thesis using rerank_call_hit [OF True Inr] g call c1 by simp
    next
      case None
      have "case r of Inl e \<Rightarrow> c' = c1 | Inr out \<Rightarrow>
              processRerankResults h (case http (hd reqs) of HttpOk rs \<Rightarrow> rs | _ \<Rightarrow> None) docs threshold inc = Inr out \<and>
              c' = setCachedResult c1 later key out"
        using rerank_call_miss [OF True Inr _ call] g None by simp
      then show ?thesis
        using c1 setCachedResult_inv [OF c1 createCacheKey_nonempty [OF Inr]]
        by (cases r) auto
    qed
  qed
qed

lemma reachable_inv: "reachable c \<Longrightarrow> cache_inv c"
proof (induction rule: reachable.induct)
  case loaded
  then show ?case by (simp add: cache_inv_def)
next
  case (cleared c)
  then show ?case by (simp add: cache_inv_def clearCache_def)
next
  case (openai c p creds http h now later query docs topK threshold inc r c' reqs)
  then show ?case
    using rerank_call_inv [of c] by (simp add: rerankWithOpenAI_call)
next
  case (cohere c p creds http h now later query docs topK threshold inc r c' reqs)
  then show ?case
    using rerank_call_inv [of c] by (auto simp: rerankWithCohere_call split: sum.splits)
qed

lemma map_fst_stored: "map fst (map stored xs) = map fst xs"
  by (simp add: stored_def comp_def)

lemma put_all_small:
  "distinct (map fst puts) \<Longrightarrow> length puts \<le> 1000 \<Longrightarrow> put_all puts [] = map stored puts"
proof (induction puts rule: rev_induct)
  case Nil
  then show ?case by (simp add: put_all_def)
next
  case (snoc x xs)
  obtain key now rs where x: "x = (key, now, rs)" by (cases x)
  have ih: "put_all xs [] = map stored xs" using snoc by simp
  have "key \<notin> set (map fst xs)"
    using snoc.prems(1) x by auto
  then have new: "key \<notin> fst ` set (map stored xs)"
    using map_fst_stored [of xs] by (metis set_map)
  have "put_all (xs @ [x]) [] = setCachedResult (map stored xs) now key rs"
    using ih x by (simp add: put_all_def)
  also have "\<dots> = map stored xs @ [(key, \<lparr>results = rs, timestamp = now\<rparr>)]"
    using new snoc.prems(2) by (intro setCachedResult_new_small) auto
  finally show ?case using x by (simp add: stored_def)
qed

lemma put_all_1001:
  assumes "distinct (map fst puts)" "[] \<notin> set (map fst puts)" "length puts = 1001"
  shows "put_all puts [] = map stored (tl puts)"
proof -
  obtain xs x where p: "puts = xs @ [x]"
    using assms(3) by (cases puts rule: rev_cases) auto
  obtain key now rs where x: "x = (key, now, rs)" by (cases x)
  have len: "length xs = 1000" using assms(3) p by simp
  have ih: "put_all xs [] = map stored xs"
    using assms(1) p len by (intro put_all_small) auto
  have fsts: "map fst (map stored xs) = map fst xs" by (rule map_fst_stored)
  have "key \<notin> set (map fst xs)"
    using assms(1) p x by auto
  then have new: "key \<notin> fst ` set (map stored xs)"
    using fsts by (metis set_map)
  have "put_all puts [] = setCachedResult (map stored xs) now key rs"
    using ih x p by (simp add: put_all_def)
  also have "\<dots> = tl (map stored xs) @ [(key, \<lparr>results = rs, timestamp = now\<rparr>)]"
  proof (rule setCachedResult_new_full [OF new])
    show "length (map stored xs) = 1000" using len by simp
    show "distinct (map fst (map stored xs))" unfolding fsts using assms(1) p by simp
    show "[] \<notin> set (map fst (map stored xs))" unfolding fsts using assms(2) p by simp
  qed
  also have "\<dots> = map stored (tl puts)"
    using p x len by (cases xs) (auto simp: stored_def)
  finally show ?thesis .
qed


lemma example_puts_keys: "map fst example_puts = map (\<lambda>n. replicate (Suc n) CHR ''k'') [0..<1001]"
  by (simp add: example_puts_def comp_def)

lemma example_puts_distinct: "distinct (map fst example_puts)"
proof -
  have "inj_on (\<lambda>n. replicate (Suc n) CHR ''k'') (set [0..<1001])"
    by (rule inj_onI) (metis length_replicate nat.inject)
  then show ?thesis
    unfolding example_puts_keys by (simp add: distinct_map)
qed

text \<open>
  C6. No cache that the module can hold has more than 1000 entries. A put of a new key
  into a cache of 1000 entries removes the entry at the head of the insertion order, and
  only that one, and appends the new entry. 1001 puts of distinct keys into the empty
  cache leave the last 1000 of them, in order: the key put first is gone.
\<close>

theorem cache_size_bound:
  "(reachable c \<longrightarrow> length c \<le> 1000) \<and>
   (length c = 1000 \<and> distinct (map fst c) \<and> [] \<notin> set (map fst c) \<and> key \<notin> set (map fst c) \<longrightarrow>
      setCachedResult c now key rs = tl c @ [(key, \<lparr>results = rs, timestamp = now\<rparr>)]) \<and>
   (distinct (map fst puts) \<and> [] \<notin> set (map fst puts) \<and> length puts = 1001 \<longrightarrow>
      put_all puts [] = map stored (tl puts) \<and> length (put_all puts []) = 1000 \<and>
      fst (hd puts) \<notin> set (map fst (put_all puts [])))"
proof (intro conjI impI)
  assume "reachable c"
  then show "length c \<le> 1000"
    using reachable_inv by (simp add: cache_inv_def)
next
  assume a: "length c = 1000 \<and> distinct (map fst c) \<and> [] \<notin> set (map fst c) \<and> key \<notin> set (map fst c)"
  then have "key \<notin> fst ` set c" by simp
  then show "setCachedResult c now key rs = tl c @ [(key, \<lparr>results = rs, timestamp = now\<rparr>)]"
    using a by (intro setCachedResult_new_full) auto
next
  assume a: "distinct (map fst puts) \<and> [] \<notin> set (map fst puts) \<and> length puts = 1001"
  then show e: "put_all puts [] = map stored (tl puts)"
    by (intro put_all_1001) auto
  show "length (put_all puts []) = 1000"
    using a e by simp
  obtain x xs where p: "puts = x # xs" using a by (cases puts) auto
  have "fst x \<notin> set (map fst xs)" using a p by auto
  then show "fst (hd puts) \<notin> set (map fst (put_all puts []))"
    using p e map_fst_stored [of xs] by simp
qed

theorem cache_size_bound_witness:
  "reachable [] \<and> length ([] :: cache) \<le> 1000 \<and>
   length example_puts = 1001 \<and>
   put_all example_puts [] = map stored (tl example_puts) \<and>
   length (put_all example_puts []) = 1000 \<and>
   fst (hd example_puts) \<notin> set (map fst (put_all example_puts []))"
proof -
  have n: "[] \<notin> set (map fst example_puts)"
    unfolding example_puts_keys by auto
  have l: "length example_puts = 1001"
    by (simp add: example_puts_def)
  have z: "length ([] :: cache) \<le> 1000"
    by simp
  have "distinct (map fst example_puts) \<and> [] \<notin> set (map fst example_puts) \<and> length example_puts = 1001"
    using example_puts_distinct n l by blast
  then have t: "put_all example_puts [] = map stored (tl example_puts) \<and>
      length (put_all example_puts []) = 1000 \<and>
      fst (hd example_puts) \<notin> set (map fst (put_all example_puts []))"
    using cache_size_bound [of "[]" "[]" 0 "[]" example_puts] by blast
  from reachable.loaded z l t show ?thesis
    by blast
qed

section \<open>Properties of the adapters\<close>

lemma rerank_call_fresh:
  assumes "enableCache" "createCacheKey h query docs service model = Inr key"
    "getCachedResult c now key ttl = (None, c0)" "documentTexts h docs = Inr texts"
    "http (build texts) = HttpOk rs" "processRerankResults h rs docs threshold inc = Inr out"
  shows "rerank_call service model enableCache ttl build apiError failed http h now later c query docs topK threshold inc
     = (Inr out, setCachedResult c0 later key out, [build texts])"
  using assms by (simp add: rerank_call_def)

lemma rerank_call_uncached:
  assumes "\<not> enableCache" "documentTexts h docs = Inr texts"
    "http (build texts) = HttpOk rs" "processRerankResults h rs docs threshold inc = Inr out"
  shows "rerank_call service model enableCache ttl build apiError failed http h now later c query docs topK threshold inc
     = (Inr out, c, [build texts])"
  using assms by (simp add: rerank_call_def)

lemma rerank_call_transport_failure:
  assumes "enableCache" "createCacheKey h query docs service model = Inr key"
    "getCachedResult c now key ttl = (None, c0)" "documentTexts h docs = Inr texts"
    "http (build texts) = HttpFailed"
  shows "rerank_call service model enableCache ttl build apiError failed http h now later c query docs topK threshold inc
     = (Inl failed, c0, [build texts])"
  using assms by (simp add: rerank_call_def)

lemma example_texts: "documentTexts example_heap [Ref 0, Ref 1] = Inr [Prim (PStr ''doc 0''), Prim (PStr ''doc 1'')]"
  by code_simp

lemma example_query_hash: "simpleHash ''test query'' = ''4drdtm''"
  by (simp add: simpleHash_def to_base36.simps digit36_def char_of_def)

lemma example_docs_string:
  "array_text [Some (json_quote ''doc 0''), Some (json_quote ''doc 1'')] =
     [CHR ''['', CHR 0x22, CHR ''d'', CHR ''o'', CHR ''c'', CHR '' '', CHR ''0'', CHR 0x22, CHR '','',
      CHR 0x22, CHR ''d'', CHR ''o'', CHR ''c'', CHR '' '', CHR ''1'', CHR 0x22, CHR '']'']"
  by (simp add: array_text_def json_quote_def json_escape_def)

lemma example_key_value: "example_key = ''openai-compatible:test-model:4drdtm:4t564z''"
  unfolding example_key_def example_docs_string example_query_hash
  by (simp add: simpleHash_def to_base36.simps digit36_def char_of_def)

lemma example_createCacheKey:
  "createCacheKey example_heap ''test query'' [Ref 0, Ref 1] ''openai-compatible'' ''test-model'' = Inr example_key"
  by (simp add: createCacheKey_def example_texts example_key_def del: One_nat_def)

lemma example_process_high:
  "processRerankResults example_heap (Some [entry 0 0.9, entry 1 0.5]) [Ref 0, Ref 1] 0.8 False
     = Inr [example_doc 0 0.9]"
  by code_simp

lemma example_process_low:
  "processRerankResults example_heap (Some [entry 0 0.9, entry 1 0.5]) [Ref 0, Ref 1] 0.1 False
     = Inr [example_doc 0 0.9, example_doc 1 0.5]"
  by code_simp

lemma example_process_zero:
  "processRerankResults example_heap (Some [entry 0 0.9, entry 1 0.5]) [Ref 0, Ref 1] 0 False
     = Inr [example_doc 0 0.9, example_doc 1 0.5]"
  by code_simp

lemma params_simps:
  "p_enableCache example_params" "p_model example_params = ''test-model''" "p_cacheTtl example_params = 5"
  by (simp_all add: example_params_def)

lemma example_miss:
  assumes "processRerankResults example_heap (Some [entry 0 0.9, entry 1 0.5]) [Ref 0, Ref 1] threshold False = Inr out"
  shows "rerankWithOpenAI example_params no_credentials example_response example_heap now later []
     ''test query'' [Ref 0, Ref 1] topK threshold False
     = (Inr out, [(example_key, \<lparr>results = out, timestamp = later\<rparr>)],
        [openai_request example_params no_credentials example_heap ''test query'' [Ref 0, Ref 1]
           [Prim (PStr ''doc 0''), Prim (PStr ''doc 1'')] topK])"
  using assms
  by (simp add: rerankWithOpenAI_call rerank_call_def params_simps example_createCacheKey example_texts
        example_response_def getCachedResult_def setCachedResult_def del: One_nat_def)

lemma example_hit:
  assumes "now - stamp < 300000"
  shows "rerankWithOpenAI example_params no_credentials http example_heap now later
     [(example_key, \<lparr>results = cached, timestamp = stamp\<rparr>)]
     ''test query'' [Ref 0, Ref 1] topK threshold False
     = (Inr (serve_cached cached threshold topK),
        [(example_key, \<lparr>results = cached, timestamp = stamp\<rparr>)], [])"
  using assms
  by (simp add: rerankWithOpenAI_call rerank_call_def params_simps example_createCacheKey
        getCachedResult_def del: One_nat_def)

text \<open>
  C1. What a cache-enabled call stores is the list that \<^verbatim>\<open>processRerankResults\<close> returned
  for that call, which is already filtered by the threshold of the call. With a backend
  that scores two documents 0.9 and 0.5: a first call with threshold 0.8 returns and stores
  the one result at 0.9; a second call with threshold 0.1, inside the time to live, is
  served from that entry and returns the same single result, without a request; a call
  with threshold 0.1 on an empty cache returns both results.
\<close>

theorem cache_holds_threshold_filtered_list:
  "rerankWithOpenAI example_params no_credentials example_response example_heap 0 0 []
     ''test query'' [Ref 0, Ref 1] 10 0.8 False
     = (Inr [example_doc 0 0.9],
        [(example_key, \<lparr>results = [example_doc 0 0.9], timestamp = 0\<rparr>)],
        [openai_request example_params no_credentials example_heap ''test query'' [Ref 0, Ref 1]
           [Prim (PStr ''doc 0''), Prim (PStr ''doc 1'')] 10]) \<and>
   rerankWithOpenAI example_params no_credentials example_response example_heap 1000 1000
     [(example_key, \<lparr>results = [example_doc 0 0.9], timestamp = 0\<rparr>)]
     ''test query'' [Ref 0, Ref 1] 10 0.1 False
     = (Inr [example_doc 0 0.9],
        [(example_key, \<lparr>results = [example_doc 0 0.9], timestamp = 0\<rparr>)], []) \<and>
   fst (rerankWithOpenAI example_params no_credentials example_response example_heap 1000 1000 []
     ''test query'' [Ref 0, Ref 1] 10 0.1 False)
     = Inr [example_doc 0 0.9, example_doc 1 0.5]"
proof -
  have served: "serve_cached [example_doc 0 0.9] 0.1 10 = [example_doc 0 0.9]"
    by code_simp
  show ?thesis
    using example_miss [OF example_process_high, of 0 0 10]
      example_hit [of 1000 0 example_response 1000 "[example_doc 0 0.9]" 10 "0.1"]
      example_miss [OF example_process_low, of 1000 1000 10] served
    by simp
qed

lemma length_serve_cached: "0 \<le> topK \<Longrightarrow> int (length (serve_cached cached threshold topK)) \<le> topK"
  by (simp add: serve_cached_def slice0_def)


text \<open>
  C2. The cached branch cuts its list down to \<open>topK\<close> (\<open>length_serve_cached\<close>); the branch
  that calls the backend returns whatever \<^verbatim>\<open>processRerankResults\<close> returns. The request
  asks for \<^verbatim>\<open>top_n = min(topK, docs.length)\<close>; with \<open>topK = 1\<close> and a backend that answers
  with two entries all the same, the adapter returns two results and the flow node reports
  \<^verbatim>\<open>rerankedCount\<close> 2, while the cached branch would return one.
\<close>

theorem miss_path_returns_more_than_topK:
  "rerankWithOpenAI (example_params\<lparr>p_enableCache := False\<rparr>) no_credentials example_response
     example_heap 0 0 [] ''test query'' [Ref 0, Ref 1] 1 0 False
     = (Inr [example_doc 0 0.9, example_doc 1 0.5], [],
        [openai_request (example_params\<lparr>p_enableCache := False\<rparr>) no_credentials example_heap
           ''test query'' [Ref 0, Ref 1] [Prim (PStr ''doc 0''), Prim (PStr ''doc 1'')] 1]) \<and>
   body_top_n (openai_request (example_params\<lparr>p_enableCache := False\<rparr>) no_credentials example_heap
           ''test query'' [Ref 0, Ref 1] [Prim (PStr ''doc 0''), Prim (PStr ''doc 1'')] 1) = 1 \<and>
   fst (execute (\<lambda>i. example_params\<lparr>p_topK := 1, p_enableCache := False\<rparr>) no_credentials
          (\<lambda>i. example_response) flow_heap (\<lambda>i. (0, 0)) [[(''documents'', Ref 3)]] [])
     = Inr [\<lparr>out_json = [(''documents'', Ref 3)],
              rerankedDocs = [example_doc 0 0.9, example_doc 1 0.5],
              originalCount = 2, rerankedCount = 2, out_query = ''test query''\<rparr>] \<and>
   serve_cached [example_doc 0 0.9, example_doc 1 0.5] 0 1 = [example_doc 0 0.9]"
  by code_simp

lemma getCachedResult_cases:
  "getCachedResult c now key ttl = (None, c) \<or>
   (\<exists>e. map_of c key = Some e \<and> now - timestamp e < ttl * 60000 \<and>
        getCachedResult c now key ttl = (Some (results e), c)) \<or>
   (\<exists>e. map_of c key = Some e \<and> \<not> now - timestamp e < ttl * 60000 \<and>
        getCachedResult c now key ttl = (None, AList.delete key c))"
  by (auto simp: getCachedResult_def split: option.splits)

lemma rerank_call_error_cache:
  assumes call: "rerank_call service model enableCache ttl build apiError failed http h now later c query docs topK threshold inc = (Inl e, c', reqs)"
  shows "c' = c \<or>
      (\<exists>key old. createCacheKey h query docs service model = Inr key \<and> map_of c key = Some old \<and>
         \<not> now - timestamp old < ttl * 60000 \<and> c' = AList.delete key c)"
proof (cases enableCache)
  case False
  then show ?thesis using rerank_call_no_cache [OF _ call] by simp
next
  case True
  show ?thesis
  proof (cases "createCacheKey h query docs service model")
    case (Inl e')
    then show ?thesis using rerank_call_key_error [OF True Inl] call by simp
  next
    case (Inr key)
    consider (absent) "getCachedResult c now key ttl = (None, c)"
      | (live) cached where "getCachedResult c now key ttl = (Some cached, c)"
      | (expired) old where "map_of c key = Some old" "\<not> now - timestamp old < ttl * 60000"
          "getCachedResult c now key ttl = (None, AList.delete key c)"
      using getCachedResult_cases [of c now key ttl] by (elim disjE exE conjE) auto
    then show ?thesis
    proof cases
      case absent
      then show ?thesis using rerank_call_miss [OF True Inr absent call] by simp
    next
      case live
      then show ?thesis using rerank_call_hit [OF True Inr live] call by simp
    next
      case expired
      then show ?thesis using rerank_call_miss [OF True Inr expired(3) call] Inr by simp
    qed
  qed
qed

text \<open>
  C9, as the code has it. A call of either adapter that ends in an error has written
  nothing to the cache: the cache is as before, or it is the cache before without the
  entry of the call's own key, which the lookup of that call found expired and deleted.
\<close>

theorem failed_call_never_writes:
  "(rerankWithOpenAI p creds http h now later c query docs topK threshold inc = (Inl e, c', reqs) \<longrightarrow>
      c' = c \<or>
      (\<exists>key old. createCacheKey h query docs ''openai-compatible'' (p_model p) = Inr key \<and>
         map_of c key = Some old \<and> \<not> now - timestamp old < p_cacheTtl p * 60000 \<and>
         c' = AList.delete key c)) \<and>
   (rerankWithCohere p creds http h now later c query docs topK threshold inc = (Inl e, c', reqs) \<longrightarrow>
      c' = c \<or>
      (\<exists>key old. createCacheKey h query docs ''cohere''
           (if p_cohereModel p = ''custom'' then p_cohereCustomModel p else p_cohereModel p) = Inr key \<and>
         map_of c key = Some old \<and> \<not> now - timestamp old < p_cacheTtl p * 60000 \<and>
         c' = AList.delete key c))"
proof (intro conjI impI)
  assume "rerankWithOpenAI p creds http h now later c query docs topK threshold inc = (Inl e, c', reqs)"
  then show "c' = c \<or>
      (\<exists>key old. createCacheKey h query docs ''openai-compatible'' (p_model p) = Inr key \<and>
         map_of c key = Some old \<and> \<not> now - timestamp old < p_cacheTtl p * 60000 \<and>
         c' = AList.delete key c)"
    unfolding rerankWithOpenAI_call by (rule rerank_call_error_cache)
next
  assume a: "rerankWithCohere p creds http h now later c query docs topK threshold inc = (Inl e, c', reqs)"
  show "c' = c \<or>
      (\<exists>key old. createCacheKey h query docs ''cohere''
           (if p_cohereModel p = ''custom'' then p_cohereCustomModel p else p_cohereModel p) = Inr key \<and>
         map_of c key = Some old \<and> \<not> now - timestamp old < p_cacheTtl p * 60000 \<and>
         c' = AList.delete key c)"
  proof (cases "case cohereApi creds of Inr k \<Rightarrow> Inr k | Inl e \<Rightarrow> cohereRerankerApi creds")
    case (Inl e')
    then show ?thesis using a by (simp add: rerankWithCohere_call)
  next
    case (Inr apiKey)
    then show ?thesis
      using a rerank_call_error_cache [of "''cohere''"] by (simp add: rerankWithCohere_call)
  qed
qed


theorem failed_call_never_writes_witness:
  "rerankWithOpenAI example_params no_credentials (\<lambda>req. HttpFailed) example_heap 400000 400000
     [(example_key, \<lparr>results = [example_doc 0 0.9], timestamp = 0\<rparr>)]
     ''test query'' [Ref 0, Ref 1] 10 0 False
     = (Inl (NodeApiError ''Request failed''), [],
        [openai_request example_params no_credentials example_heap ''test query'' [Ref 0, Ref 1]
           [Prim (PStr ''doc 0''), Prim (PStr ''doc 1'')] 10]) \<and>
   ([] = [(example_key, \<lparr>results = [example_doc 0 0.9], timestamp = 0\<rparr>)] \<or>
    (\<exists>key old. createCacheKey example_heap ''test query'' [Ref 0, Ref 1] ''openai-compatible''
                  (p_model example_params) = Inr key \<and>
       map_of [(example_key, \<lparr>results = [example_doc 0 0.9], timestamp = 0\<rparr>)] key = Some old \<and>
       \<not> 400000 - timestamp old < p_cacheTtl example_params * 60000 \<and>
       [] = AList.delete key [(example_key, \<lparr>results = [example_doc 0 0.9], timestamp = 0\<rparr>)]))"
proof -
  have call: "rerankWithOpenAI example_params no_credentials (\<lambda>req. HttpFailed) example_heap 400000 400000
     [(example_key, \<lparr>results = [example_doc 0 0.9], timestamp = 0\<rparr>)]
     ''test query'' [Ref 0, Ref 1] 10 0 False
     = (Inl (NodeApiError ''Request failed''), [],
        [openai_request example_params no_credentials example_heap ''test query'' [Ref 0, Ref 1]
           [Prim (PStr ''doc 0''), Prim (PStr ''doc 1'')] 10])"
    by (simp add: rerankWithOpenAI_call rerank_call_def params_simps example_createCacheKey example_texts
        getCachedResult_def AList.delete_eq del: One_nat_def)
  show ?thesis
    using call failed_call_never_writes [THEN conjunct1, rule_format, OF call] by blast
qed

text \<open>
  C9 as stated fails: a failing call can leave the cache changed. The cache holds one
  entry, stored at time 0; a call for the same key at time 400000, with a time to live of
  5 minutes, whose request fails, ends in an error and leaves the cache empty.
\<close>

theorem failed_call_deletes_expired_entry:
  "rerankWithOpenAI example_params no_credentials (\<lambda>req. HttpFailed) example_heap 400000 400000
     [(example_key, \<lparr>results = [example_doc 0 0.9], timestamp = 0\<rparr>)]
     ''test query'' [Ref 0, Ref 1] 10 0 False
     = (Inl (NodeApiError ''Request failed''), [],
        [openai_request example_params no_credentials example_heap ''test query'' [Ref 0, Ref 1]
           [Prim (PStr ''doc 0''), Prim (PStr ''doc 1'')] 10])"
  by (simp add: rerankWithOpenAI_call rerank_call_def params_simps example_createCacheKey example_texts
        getCachedResult_def AList.delete_eq del: One_nat_def)

lemma getCachedResult_None_absent:
  assumes "getCachedResult c now key ttl = (None, c0)"
  shows "key \<notin> fst ` set c0"
proof (cases "map_of c key")
  case None
  then have "c0 = c"
    using assms by (simp add: getCachedResult_def)
  then show ?thesis using None by (simp add: map_of_eq_None_iff)
next
  case (Some e)
  then have "c0 = AList.delete key c"
    using assms by (simp add: getCachedResult_def split: if_splits)
  then show ?thesis by (simp add: delete_notin_dom)
qed

lemma getCachedResult_Some:
  assumes "getCachedResult c now key ttl = (Some rs, c0)"
  shows "c0 = c \<and> (\<exists>e. map_of c key = Some e \<and> results e = rs \<and> now - timestamp e < ttl * 60000)"
  using assms by (auto simp: getCachedResult_def split: option.splits if_splits)

lemma getCachedResult_live:
  assumes "map_of c key = Some e" "now - timestamp e < ttl * 60000"
  shows "getCachedResult c now key ttl = (Some (results e), c)"
  using assms by (simp add: getCachedResult_def)

lemma setCachedResult_lookup:
  assumes "key \<notin> fst ` set c"
  shows "map_of (setCachedResult c now key rs) key = Some \<lparr>results = rs, timestamp = now\<rparr>"
proof (cases c)
  case Nil
  then show ?thesis by (simp add: setCachedResult_def)
next
  case (Cons kv rest)
  obtain k v where kv: "kv = (k, v)" by (cases kv)
  have ne: "k \<noteq> key" using assms Cons kv by auto
  define u where "u = AList.update key \<lparr>results = rs, timestamp = now\<rparr> c"
  have upd: "u = (k, v) # AList.update key \<lparr>results = rs, timestamp = now\<rparr> rest"
    using Cons kv ne by (simp add: u_def)
  have look: "map_of u key = Some \<lparr>results = rs, timestamp = now\<rparr>"
    by (simp add: u_def update_conv')
  have gone: "map_of (AList.delete k u) key = Some \<lparr>results = rs, timestamp = now\<rparr>"
    using look ne by (simp add: delete_conv')
  have "setCachedResult c now key rs = (if length u > 1000 \<and> k \<noteq> [] then AList.delete k u else u)"
    unfolding setCachedResult_def Let_def u_def [symmetric] by (simp add: upd)
  then show ?thesis
    using look gone by simp
qed

lemma map_fst_update_any: "map fst (AList.update k v al) = map fst (AList.update k v' al)"
  by (induction al) auto

lemma map_fst_setCachedResult:
  "map fst (setCachedResult c now key rs) = map fst (setCachedResult c now' key rs')"
proof -
  define u where "u = AList.update key \<lparr>results = rs, timestamp = now\<rparr> c"
  define u' where "u' = AList.update key \<lparr>results = rs', timestamp = now'\<rparr> c"
  have keys: "map fst u = map fst u'"
    unfolding u_def u'_def by (rule map_fst_update_any)
  then have len: "length u = length u'"
    by (metis length_map)
  have heads: "map fst (case u of [] \<Rightarrow> u | (firstKey, first) # rest \<Rightarrow>
                    if firstKey \<noteq> [] then AList.delete firstKey u else u)
      = map fst (case u' of [] \<Rightarrow> u' | (firstKey, first) # rest \<Rightarrow>
                    if firstKey \<noteq> [] then AList.delete firstKey u' else u')"
  proof (cases u)
    case Nil
    then show ?thesis using len by simp
  next
    case (Cons a as)
    obtain b bs where c': "u' = b # bs" using len Cons by (cases u') auto
    have "fst a = fst b" using keys Cons c' by simp
    then show ?thesis
      using keys Cons c' by (cases a; cases b) (simp add: map_fst_delete)
  qed
  show ?thesis
    using keys len heads unfolding setCachedResult_def Let_def u_def [symmetric] u'_def [symmetric]
    by simp
qed

lemma rerank_call_success_entry:
  assumes on: "enableCache"
    and call: "rerank_call service model enableCache ttl build apiError failed http h now later c query docs topK threshold inc = (Inr out, c1, reqs)"
  shows "\<exists>key e. createCacheKey h query docs service model = Inr key \<and> map_of c1 key = Some e"
proof (cases "createCacheKey h query docs service model")
  case (Inl e)
  then show ?thesis using rerank_call_key_error [OF on Inl] call by simp
next
  case (Inr key)
  obtain found c0 where g: "getCachedResult c now key ttl = (found, c0)"
    by (cases "getCachedResult c now key ttl")
  show ?thesis
  proof (cases found)
    case None
    have "c1 = setCachedResult c0 later key out"
      using rerank_call_miss [OF on Inr _ call] g None by simp
    then show ?thesis
      using setCachedResult_lookup [OF getCachedResult_None_absent] g None Inr by blast
  next
    case (Some cached)
    have "c1 = c0"
      using rerank_call_hit [OF on Inr] g Some call by simp
    then show ?thesis
      using getCachedResult_Some g Some Inr by blast
  qed
qed

lemma rerank_call_same_keys:
  assumes on: "enableCache"
    and call1: "rerank_call service model enableCache ttl build apiError failed http h now later c query docs topK threshold inc = (Inr out, c1, reqs)"
    and call2: "rerank_call service model enableCache ttl build2 apiError2 failed2 http2 h now later2 c query docs topK2 threshold2 inc2 = (Inr out2, c2, reqs2)"
  shows "map fst c2 = map fst c1"
proof (cases "createCacheKey h query docs service model")
  case (Inl e)
  then show ?thesis using rerank_call_key_error [OF on Inl] call1 by simp
next
  case (Inr key)
  obtain found c0 where g: "getCachedResult c now key ttl = (found, c0)"
    by (cases "getCachedResult c now key ttl")
  show ?thesis
  proof (cases found)
    case None
    have "c1 = setCachedResult c0 later key out"
      using rerank_call_miss [OF on Inr _ call1] g None by simp
    moreover have "c2 = setCachedResult c0 later2 key out2"
      using rerank_call_miss [OF on Inr _ call2] g None by simp
    ultimately show ?thesis
      using map_fst_setCachedResult by simp
  next
    case (Some cached)
    have "c1 = c0"
      using rerank_call_hit [OF on Inr] g Some call1 by simp
    moreover have "c2 = c0"
      using rerank_call_hit [OF on Inr] g Some call2 by simp
    ultimately show ?thesis by simp
  qed
qed

text \<open>
  C8. The key under which \<^verbatim>\<open>rerankWithOpenAI\<close> reads and writes the cache is
  \<^verbatim>\<open>createCacheKey\<close> of the query and documents as passed in, the service name and the
  model. After a successful cache-enabled call there is an entry under that key. A call
  that differs in the template parameters only (enabled or not, preset, prefixes,
  suffixes, instruction), whatever its credentials, transport, \<open>topK\<close> and threshold, is
  served from that entry while the entry is inside the time to live; and started from the
  same cache at the same time, it leaves a cache with the same keys.
\<close>

theorem cache_key_ignores_templates:
  assumes on: "p_enableCache p"
    and p': "p' = p\<lparr>p_enableCustomTemplates := templates, p_templatePreset := preset,
                    p_queryPrefix := qp, p_querySuffix := qs, p_documentPrefix := dp,
                    p_documentSuffix := ds, p_instruction := ins\<rparr>"
    and call: "rerankWithOpenAI p creds http h now later c query docs topK threshold inc = (Inr out, c1, reqs)"
  shows "\<exists>key e. createCacheKey h query docs ''openai-compatible'' (p_model p) = Inr key \<and>
           map_of c1 key = Some e \<and>
           (now2 - timestamp e < p_cacheTtl p * 60000 \<longrightarrow>
              rerankWithOpenAI p' creds2 http2 h now2 later2 c1 query docs topK2 threshold2 inc2
                = (Inr (serve_cached (results e) threshold2 topK2), c1, [])) \<and>
           (\<forall>out3 c3 reqs3.
              rerankWithOpenAI p' creds2 http2 h now later2 c query docs topK2 threshold2 inc2
                = (Inr out3, c3, reqs3) \<longrightarrow> map fst c3 = map fst c1)"
proof -
  have same: "p_model p' = p_model p" "p_enableCache p' = p_enableCache p" "p_cacheTtl p' = p_cacheTtl p"
    using p' by simp_all
  obtain key e where key: "createCacheKey h query docs ''openai-compatible'' (p_model p) = Inr key"
    and e: "map_of c1 key = Some e"
    using rerank_call_success_entry [OF on call [unfolded rerankWithOpenAI_call]] by blast
  have hit: "rerankWithOpenAI p' creds2 http2 h now2 later2 c1 query docs topK2 threshold2 inc2
                = (Inr (serve_cached (results e) threshold2 topK2), c1, [])"
    if live: "now2 - timestamp e < p_cacheTtl p * 60000"
    unfolding rerankWithOpenAI_call same
    using on key getCachedResult_live [OF e live] by (rule rerank_call_hit)
  have keys: "map fst c3 = map fst c1"
    if "rerankWithOpenAI p' creds2 http2 h now later2 c query docs topK2 threshold2 inc2 = (Inr out3, c3, reqs3)"
    for out3 c3 reqs3
    using rerank_call_same_keys [OF on call [unfolded rerankWithOpenAI_call] that [unfolded rerankWithOpenAI_call same]] .
  show ?thesis
    using key e hit keys by blast
qed


lemma templated_request:
  "body_query (openai_request templated_params no_credentials example_heap ''test query'' [Ref 0, Ref 1]
       [Prim (PStr ''doc 0''), Prim (PStr ''doc 1'')] 10) = ''Q: test query ?'' \<and>
   body_documents (openai_request templated_params no_credentials example_heap ''test query'' [Ref 0, Ref 1]
       [Prim (PStr ''doc 0''), Prim (PStr ''doc 1'')] 10) = [Prim (PStr ''D: doc 0''), Prim (PStr ''D: doc 1'')]"
  by code_simp

theorem cache_key_ignores_templates_witness:
  "rerankWithOpenAI example_params no_credentials example_response example_heap 0 0 []
     ''test query'' [Ref 0, Ref 1] 10 0 False
     = (Inr [example_doc 0 0.9, example_doc 1 0.5],
        [(example_key, \<lparr>results = [example_doc 0 0.9, example_doc 1 0.5], timestamp = 0\<rparr>)],
        [openai_request example_params no_credentials example_heap ''test query'' [Ref 0, Ref 1]
           [Prim (PStr ''doc 0''), Prim (PStr ''doc 1'')] 10]) \<and>
   rerankWithOpenAI templated_params no_credentials (\<lambda>req. HttpFailed) example_heap 1000 1000
     [(example_key, \<lparr>results = [example_doc 0 0.9, example_doc 1 0.5], timestamp = 0\<rparr>)]
     ''test query'' [Ref 0, Ref 1] 1 0.6 False
     = (Inr [example_doc 0 0.9],
        [(example_key, \<lparr>results = [example_doc 0 0.9, example_doc 1 0.5], timestamp = 0\<rparr>)], [])"
proof -
  let ?c1 = "[(example_key, \<lparr>results = [example_doc 0 0.9, example_doc 1 0.5], timestamp = 0\<rparr>)]"
  have call: "rerankWithOpenAI example_params no_credentials example_response example_heap 0 0 []
     ''test query'' [Ref 0, Ref 1] 10 0 False
     = (Inr [example_doc 0 0.9, example_doc 1 0.5], ?c1,
        [openai_request example_params no_credentials example_heap ''test query'' [Ref 0, Ref 1]
           [Prim (PStr ''doc 0''), Prim (PStr ''doc 1'')] 10])"
    by (rule example_miss [OF example_process_zero])
  obtain key e where key: "createCacheKey example_heap ''test query'' [Ref 0, Ref 1] ''openai-compatible''
        (p_model example_params) = Inr key"
    and e: "map_of ?c1 key = Some e"
    and hit: "1000 - timestamp e < p_cacheTtl example_params * 60000 \<longrightarrow>
        rerankWithOpenAI templated_params no_credentials (\<lambda>req. HttpFailed) example_heap 1000 1000 ?c1
          ''test query'' [Ref 0, Ref 1] 1 0.6 False
        = (Inr (serve_cached (results e) 0.6 1), ?c1, [])"
    using cache_key_ignores_templates [OF params_simps(1) templated_params_def call,
        of 1000 no_credentials "\<lambda>req. HttpFailed" 1000 1 "0.6" False]
    by blast
  have "key = example_key"
    using key example_createCacheKey by (simp add: params_simps)
  then have ee: "e = \<lparr>results = [example_doc 0 0.9, example_doc 1 0.5], timestamp = 0\<rparr>"
    using e by simp
  have served: "serve_cached [example_doc 0 0.9, example_doc 1 0.5] 0.6 1 = [example_doc 0 0.9]"
    by code_simp
  have "rerankWithOpenAI templated_params no_credentials (\<lambda>req. HttpFailed) example_heap 1000 1000 ?c1
          ''test query'' [Ref 0, Ref 1] 1 0.6 False
        = (Inr [example_doc 0 0.9], ?c1, [])"
    using hit ee served by (simp add: params_simps)
  then show ?thesis using call by simp
qed


lemma list_all_update:
  "P (k, v) \<Longrightarrow> list_all P al \<Longrightarrow> list_all P (AList.update k v al)"
  by (induction al) auto

lemma list_all_delete: "list_all P al \<Longrightarrow> list_all P (AList.delete k al)"
  by (simp add: AList.delete_eq list_all_iff)

lemma cache_sorted_get: "cache_sorted c \<Longrightarrow> cache_sorted (snd (getCachedResult c now key ttl))"
  by (auto simp: getCachedResult_def cache_sorted_def list_all_delete split: option.splits)

lemma cache_sorted_set:
  assumes "cache_sorted c" "sorted_wrt score_ge rs"
  shows "cache_sorted (setCachedResult c now key rs)"
proof -
  have "list_all (\<lambda>kv. sorted_wrt score_ge (results (snd kv)))
          (AList.update key \<lparr>results = rs, timestamp = now\<rparr> c)"
    using assms by (intro list_all_update) (simp_all add: cache_sorted_def)
  then show ?thesis
    by (auto simp: setCachedResult_def Let_def cache_sorted_def list_all_delete split: list.splits)
qed

lemma cache_sorted_lookup:
  "cache_sorted c \<Longrightarrow> map_of c key = Some e \<Longrightarrow> sorted_wrt score_ge (results e)"
proof -
  assume a: "cache_sorted c" and b: "map_of c key = Some e"
  have "(key, e) \<in> set c" using b by (rule map_of_SomeD)
  then show ?thesis using a by (force simp: cache_sorted_def list_all_iff)
qed

lemma serve_cached_post:
  assumes "sorted_wrt score_ge cached"
  shows "list_all (\<lambda>x. js_ge (rerankScore x) t) (serve_cached cached t topK) \<and>
         sorted_wrt score_ge (serve_cached cached t topK)"
proof -
  have "list_all (\<lambda>x. js_ge (rerankScore x) t) (serve_cached cached t topK)"
    using set_slice0 [of topK "filter (\<lambda>doc. js_ge (rerankScore doc) t) cached"]
    by (auto simp: serve_cached_def list_all_iff)
  moreover have "sorted_wrt score_ge (serve_cached cached t topK)"
    using assms by (simp add: serve_cached_def slice0_def sorted_wrt_filter_keeps sorted_wrt_take_keeps)
  ultimately show ?thesis by simp
qed

lemma rerank_call_sorted:
  assumes inv: "cache_sorted c"
    and call: "rerank_call service model enableCache ttl build apiError failed http h now later c query docs topK threshold inc = (r, c', reqs)"
  shows "cache_sorted c' \<and>
     (\<forall>out. r = Inr out \<longrightarrow>
        list_all (\<lambda>x. js_ge (rerankScore x) threshold) out \<and> sorted_wrt score_ge out)"
proof (cases enableCache)
  case False
  have c': "c' = c" using rerank_call_no_cache [OF False call] .
  have "list_all (\<lambda>x. js_ge (rerankScore x) threshold) out \<and> sorted_wrt score_ge out" if "r = Inr out" for out
  proof -
    have "\<exists>rs. processRerankResults h rs docs threshold inc = Inr out"
      using call that False by (auto simp: rerank_call_def split: sum.splits http_outcome.splits)
    then show ?thesis
      using process_scores process_sorted by (auto simp: list_all_iff)
  qed
  then show ?thesis using c' inv by simp
next
  case True
  show ?thesis
  proof (cases "createCacheKey h query docs service model")
    case (Inl e)
    have "r = Inl e \<and> c' = c"
      using rerank_call_key_error [OF True Inl, of ttl build apiError failed http now later c topK threshold inc]
        call by simp
    then show ?thesis using inv by simp
  next
    case (Inr key)
    obtain found c0 where g: "getCachedResult c now key ttl = (found, c0)"
      by (cases "getCachedResult c now key ttl")
    have c0: "cache_sorted c0"
      using cache_sorted_get [OF inv, of now key ttl] g by simp
    show ?thesis
    proof (cases found)
      case (Some cached)
      have "sorted_wrt score_ge cached"
        using getCachedResult_Some [OF g [unfolded Some]] cache_sorted_lookup [OF inv] by blast
      then show ?thesis
        using rerank_call_hit [OF True Inr g [unfolded Some]] call c0 serve_cached_post by auto
    next
      case None
      have m: "case r of Inl e \<Rightarrow> c' = c0 | Inr out \<Rightarrow>
              processRerankResults h (case http (hd reqs) of HttpOk rs \<Rightarrow> rs | _ \<Rightarrow> None) docs threshold inc = Inr out \<and>
              c' = setCachedResult c0 later key out"
        using rerank_call_miss [OF True Inr _ call] g None by simp
      show ?thesis
      proof (cases r)
        case (Inl e)
        then show ?thesis using m c0 by simp
      next
        case (Inr out)
        then have p: "processRerankResults h (case http (hd reqs) of HttpOk rs \<Rightarrow> rs | _ \<Rightarrow> None) docs threshold inc = Inr out"
          and c': "c' = setCachedResult c0 later key out"
          using m by simp_all
        have "sorted_wrt score_ge out" using p by (rule process_sorted)
        moreover have "list_all (\<lambda>x. js_ge (rerankScore x) threshold) out"
          using process_scores [OF p] by (simp add: list_all_iff)
        ultimately show ?thesis
          using Inr c' cache_sorted_set [OF c0] by simp
      qed
    qed
  qed
qed

lemma reachable_sorted: "reachable c \<Longrightarrow> cache_sorted c"
proof (induction rule: reachable.induct)
  case loaded
  then show ?case by (simp add: cache_sorted_def)
next
  case (cleared c)
  then show ?case by (simp add: cache_sorted_def clearCache_def)
next
  case (openai c p creds http h now later query docs topK threshold inc r c' reqs)
  then show ?case
    using rerank_call_sorted [of c] by (simp add: rerankWithOpenAI_call)
next
  case (cohere c p creds http h now later query docs topK threshold inc r c' reqs)
  then show ?case
    using rerank_call_sorted [of c] by (auto simp: rerankWithCohere_call split: sum.splits)
qed


text \<open>
  C4. Every result that \<^verbatim>\<open>processRerankResults\<close> returns has a score at or above the
  threshold of the call, and the returned list is in non-increasing order of score. Both
  hold again for what the cached branch makes of such a list under any other threshold
  \<open>t\<close> and any \<open>k\<close>; and both hold for the list that either adapter returns, from the
  backend or from the cache, on every cache that the module can hold.
\<close>

theorem process_threshold_and_order:
  "(processRerankResults h rs docs threshold inc = Inr out \<longrightarrow>
      list_all (\<lambda>x. js_ge (rerankScore x) threshold) out \<and> sorted_wrt score_ge out \<and>
      list_all (\<lambda>x. js_ge (rerankScore x) t) (serve_cached out t k) \<and>
      sorted_wrt score_ge (serve_cached out t k)) \<and>
   (reachable c \<and>
    rerankWithOpenAI p creds http h now later c query docs topK threshold inc = (Inr out, c', reqs) \<longrightarrow>
      list_all (\<lambda>x. js_ge (rerankScore x) threshold) out \<and> sorted_wrt score_ge out) \<and>
   (reachable c \<and>
    rerankWithCohere p creds http h now later c query docs topK threshold inc = (Inr out, c', reqs) \<longrightarrow>
      list_all (\<lambda>x. js_ge (rerankScore x) threshold) out \<and> sorted_wrt score_ge out)"
proof (intro conjI impI)
  assume a: "processRerankResults h rs docs threshold inc = Inr out"
  show "list_all (\<lambda>x. js_ge (rerankScore x) threshold) out"
    using process_scores [OF a] by (simp add: list_all_iff)
  show s: "sorted_wrt score_ge out"
    using a by (rule process_sorted)
  show "list_all (\<lambda>x. js_ge (rerankScore x) t) (serve_cached out t k)"
    using serve_cached_post [OF s] by simp
  show "sorted_wrt score_ge (serve_cached out t k)"
    using serve_cached_post [OF s] by simp
next
  assume a: "reachable c \<and>
    rerankWithOpenAI p creds http h now later c query docs topK threshold inc = (Inr out, c', reqs)"
  then have cs: "cache_sorted c"
    by (simp add: reachable_sorted)
  have call: "rerankWithOpenAI p creds http h now later c query docs topK threshold inc = (Inr out, c', reqs)"
    using a by simp
  have b: "list_all (\<lambda>x. js_ge (rerankScore x) threshold) out \<and> sorted_wrt score_ge out"
    using rerank_call_sorted [OF cs call [unfolded rerankWithOpenAI_call]] by simp
  show "list_all (\<lambda>x. js_ge (rerankScore x) threshold) out" using b by simp
  show "sorted_wrt score_ge out" using b by simp
next
  assume a: "reachable c \<and>
    rerankWithCohere p creds http h now later c query docs topK threshold inc = (Inr out, c', reqs)"
  then have cs: "cache_sorted c"
    by (simp add: reachable_sorted)
  have call: "rerankWithCohere p creds http h now later c query docs topK threshold inc = (Inr out, c', reqs)"
    using a by simp
  have b: "list_all (\<lambda>x. js_ge (rerankScore x) threshold) out \<and> sorted_wrt score_ge out"
  proof (cases "case cohereApi creds of Inr k \<Rightarrow> Inr k | Inl e \<Rightarrow> cohereRerankerApi creds")
    case (Inl e)
    then show ?thesis using call by (simp add: rerankWithCohere_call)
  next
    case (Inr apiKey)
    then have "rerank_call ''cohere''
        (if p_cohereModel p = ''custom'' then p_cohereCustomModel p else p_cohereModel p)
        (p_enableCache p) (p_cacheTtl p)
        (\<lambda>texts. cohere_request apiKey
            (if p_cohereModel p = ''custom'' then p_cohereCustomModel p else p_cohereModel p)
            query docs texts topK)
        (\<lambda>statusCode. NodeApiError (''Cohere API Error ('' @ show_nat statusCode @ '')''))
        (NodeApiError ''Cohere request failed'') http h now later c query docs topK threshold inc
        = (Inr out, c', reqs)"
      using call by (simp add: rerankWithCohere_call)
    then show ?thesis
      using rerank_call_sorted [OF cs] by blast
  qed
  show "list_all (\<lambda>x. js_ge (rerankScore x) threshold) out" using b by simp
  show "sorted_wrt score_ge out" using b by simp
qed

theorem process_threshold_and_order_witness:
  "processRerankResults example_heap (Some [entry 0 0.4, entry 1 0.9, entry 2 0.1])
     [Ref 0, Ref 1, Ref 2] 0.3 False = Inr [example_doc 1 0.9, example_doc 0 0.4] \<and>
   list_all (\<lambda>x. js_ge (rerankScore x) 0.3) [example_doc 1 0.9, example_doc 0 0.4] \<and>
   sorted_wrt score_ge [example_doc 1 0.9, example_doc 0 0.4] \<and>
   list_all (\<lambda>x. js_ge (rerankScore x) 0.5) (serve_cached [example_doc 1 0.9, example_doc 0 0.4] 0.5 10) \<and>
   sorted_wrt score_ge (serve_cached [example_doc 1 0.9, example_doc 0 0.4] 0.5 10) \<and>
   reachable [(example_key, \<lparr>results = [example_doc 0 0.9, example_doc 1 0.5], timestamp = 0\<rparr>)] \<and>
   rerankWithOpenAI example_params no_credentials example_response example_heap 1000 1000
     [(example_key, \<lparr>results = [example_doc 0 0.9, example_doc 1 0.5], timestamp = 0\<rparr>)]
     ''test query'' [Ref 0, Ref 1] 1 0.6 False
     = (Inr (serve_cached [example_doc 0 0.9, example_doc 1 0.5] 0.6 1),
        [(example_key, \<lparr>results = [example_doc 0 0.9, example_doc 1 0.5], timestamp = 0\<rparr>)], []) \<and>
   list_all (\<lambda>x. js_ge (rerankScore x) 0.6) (serve_cached [example_doc 0 0.9, example_doc 1 0.5] 0.6 1) \<and>
   sorted_wrt score_ge (serve_cached [example_doc 0 0.9, example_doc 1 0.5] 0.6 1)"
proof -
  let ?c1 = "[(example_key, \<lparr>results = [example_doc 0 0.9, example_doc 1 0.5], timestamp = 0\<rparr>)]"
  have r: "reachable ?c1"
    using reachable.openai [OF reachable.loaded example_miss [OF example_process_zero, of 0 0 10]] .
  have hit: "rerankWithOpenAI example_params no_credentials example_response example_heap 1000 1000 ?c1
     ''test query'' [Ref 0, Ref 1] 1 0.6 False
     = (Inr (serve_cached [example_doc 0 0.9, example_doc 1 0.5] 0.6 1), ?c1, [])"
    by (rule example_hit) simp
  have a: "list_all (\<lambda>x. js_ge (rerankScore x) 0.3) [example_doc 1 0.9, example_doc 0 0.4] \<and>
      sorted_wrt score_ge [example_doc 1 0.9, example_doc 0 0.4] \<and>
      list_all (\<lambda>x. js_ge (rerankScore x) 0.5) (serve_cached [example_doc 1 0.9, example_doc 0 0.4] 0.5 10) \<and>
      sorted_wrt score_ge (serve_cached [example_doc 1 0.9, example_doc 0 0.4] 0.5 10)"
    using process_threshold_and_order [THEN conjunct1, rule_format, OF process_example] .
  have b: "list_all (\<lambda>x. js_ge (rerankScore x) 0.6) (serve_cached [example_doc 0 0.9, example_doc 1 0.5] 0.6 1) \<and>
      sorted_wrt score_ge (serve_cached [example_doc 0 0.9, example_doc 1 0.5] 0.6 1)"
    using process_threshold_and_order [THEN conjunct2, THEN conjunct1, rule_format, OF conjI [OF r hit]] .
  show ?thesis
    using process_example r hit a b by blast
qed

section \<open>Properties of the flow node\<close>

lemma trim_Nil: "trim [] = []"
  by (simp add: trim_def)

text \<open>
  C10, as the code has it. For an item whose query is not blank and whose documents field
  holds an empty array, the loop body pushes the item's fields with \<^verbatim>\<open>rerankedDocs\<close>
  empty and both counts 0, leaves the cache as it is and sends no request; the loop goes
  on with the next item.
\<close>

theorem empty_documents_item:
  assumes "trim (p_query (params i)) \<noteq> []" "map_of json (p_documentsField (params i)) = Some (Ref a)"
    "deref h a = Arr []"
  shows "execute_item (params i) creds (http i) h now later c json
           = (Inr \<lparr>out_json = json, rerankedDocs = [], originalCount = 0, rerankedCount = 0,
                    out_query = p_query (params i)\<rparr>, c, []) \<and>
         execute_from params creds http h clock i (json # items) c
           = (case execute_from params creds http h clock (Suc i) items c of
                (Inl e, c2, reqs) \<Rightarrow> (Inl e, c2, reqs)
              | (Inr outs, c2, reqs) \<Rightarrow>
                  (Inr (\<lparr>out_json = json, rerankedDocs = [], originalCount = 0, rerankedCount = 0,
                          out_query = p_query (params i)\<rparr> # outs), c2, reqs))"
proof -
  have q: "p_query (params i) \<noteq> []"
    using assms(1) trim_Nil by auto
  have item: "execute_item (params i) creds (http i) h now later c json
           = (Inr \<lparr>out_json = json, rerankedDocs = [], originalCount = 0, rerankedCount = 0,
                    out_query = p_query (params i)\<rparr>, c, [])" for now later
    using assms q by (simp add: execute_item_def)
  show ?thesis
    using item by (simp split: prod.splits sum.splits)
qed

theorem empty_documents_item_witness:
  "execute (\<lambda>i. example_params) no_credentials (\<lambda>i req. HttpFailed) flow_heap
     (\<lambda>i. (0, 0)) [[(''documents'', Ref 4)]] []
     = (Inr [\<lparr>out_json = [(''documents'', Ref 4)], rerankedDocs = [], originalCount = 0,
               rerankedCount = 0, out_query = ''test query''\<rparr>], [], [])"
proof -
  have t: "trim (p_query example_params) \<noteq> []"
    by code_simp
  have f: "map_of [(''documents'', Ref 4)] (p_documentsField example_params) = Some (Ref 4)"
    by (simp add: example_params_def)
  have d: "deref flow_heap 4 = Arr []"
    by code_simp
  have q: "p_query example_params = ''test query''"
    by (simp add: example_params_def)
  show ?thesis
    using empty_documents_item [of "\<lambda>i. example_params" 0 "[(''documents'', Ref 4)]" 4 flow_heap
        no_credentials "\<lambda>i req. HttpFailed" 0 0 "[]" "\<lambda>i. (0, 0)" "[]", OF t f d]
    by (simp add: execute_def q)
qed

text \<open>
  C10 as stated fails: the query is checked before the documents. For an item whose
  documents field holds an empty array and whose query is blank, the node throws and
  produces no output item.
\<close>

theorem blank_query_with_empty_documents_throws:
  "execute (\<lambda>i. example_params\<lparr>p_query := '' ''\<rparr>) no_credentials (\<lambda>i req. HttpFailed) flow_heap
     (\<lambda>i. (0, 0)) [[(''documents'', Ref 4)]] []
     = (Inl (NodeOperationError ''Query cannot be empty''), [], [])"
  by code_simp


end
